theory Spec2Isabelle
  imports Main "HOL-Library.Word" "HOL-Library.Sublist"
begin

unbundle bit_operations_syntax

section \<open>Configuration constants\<close>

text \<open>
  Values of \<^verbatim>\<open>balloon_config.h\<close>, \<^verbatim>\<open>sensor_pins.h\<close>, \<^verbatim>\<open>lora_comm.h\<close> and
  \<^verbatim>\<open>packet_handler.h\<close>. The target is the ESP32-S3 (little-endian, naturally aligned
  structs), so \<^verbatim>\<open>sizeof(PacketHeader)\<close> is 8: seven bytes of fields
  (two start bytes, type, 8-bit sequence number, 16-bit length at offset 4, crc8 at offset 6)
  and one byte of tail padding. \<^verbatim>\<open>sizeof(PacketFooter)\<close> is 4 and
  \<^verbatim>\<open>sizeof(LoRaPacketHeader)\<close> is 12.
\<close>

type_synonym byte = "8 word"

definition MAX_PACKET_SIZE :: nat where "MAX_PACKET_SIZE = 240"
definition MAX_QUEUE_SIZE :: nat where "MAX_QUEUE_SIZE = 10"
definition MAX_RETRIES :: nat where "MAX_RETRIES = 3"
definition ACK_TIMEOUT_MS :: "32 word" where "ACK_TIMEOUT_MS = 2000"
definition RSSI_HISTORY_SIZE :: nat where "RSSI_HISTORY_SIZE = 10"
definition LORA_SPREADING_FACTOR :: int where "LORA_SPREADING_FACTOR = 7"
definition ENABLE_ADAPTIVE_SF :: bool where "ENABLE_ADAPTIVE_SF = True"
definition ADAPTIVE_SF_HIGH_THRESHOLD :: int where "ADAPTIVE_SF_HIGH_THRESHOLD = - 80"
definition ADAPTIVE_SF_LOW_THRESHOLD :: int where "ADAPTIVE_SF_LOW_THRESHOLD = - 110"
definition sizeof_PacketHeader :: nat where "sizeof_PacketHeader = 8"
definition sizeof_PacketFooter :: nat where "sizeof_PacketFooter = 4"
definition sizeof_LoRaPacketHeader :: nat where "sizeof_LoRaPacketHeader = 12"

text \<open>
  \<^verbatim>\<open>enum class PacketType : uint8_t\<close> of \<^verbatim>\<open>common_types.h\<close> gives several enumerators
  the same value, so a packet type is its underlying byte and the enumerators are names
  for bytes.
\<close>

definition PacketType_HEARTBEAT :: byte where "PacketType_HEARTBEAT = 0x01"
definition PacketType_TELEMETRY :: byte where "PacketType_TELEMETRY = 0x02"
definition PacketType_GPS_DATA :: byte where "PacketType_GPS_DATA = 0x03"
definition PacketType_CAMERA_DATA :: byte where "PacketType_CAMERA_DATA = 0x04"
definition PacketType_ALERT :: byte where "PacketType_ALERT = 0x05"
definition PacketType_COMMAND_ACK :: byte where "PacketType_COMMAND_ACK = 0x06"
definition PacketType_STATUS :: byte where "PacketType_STATUS = 0x07"
definition PacketType_DEBUG :: byte where "PacketType_DEBUG = 0x08"
definition PacketType_GPS :: byte where "PacketType_GPS = 0x02"
definition PacketType_CAMERA_THUMB :: byte where "PacketType_CAMERA_THUMB = 0x03"
definition PacketType_CAMERA_FULL :: byte where "PacketType_CAMERA_FULL = 0x04"
definition PacketType_ACK :: byte where "PacketType_ACK = 0x06"
definition PacketType_NACK :: byte where "PacketType_NACK = 0x07"
definition PacketType_PING :: byte where "PacketType_PING = 0x08"
definition PacketType_PONG :: byte where "PacketType_PONG = 0x09"
definition PacketType_EMERGENCY :: byte where "PacketType_EMERGENCY = 0xFF"

section \<open>LoRa data structures (lora\_comm.h)\<close>

datatype Priority = EMERGENCY | GPS | TELEMETRY | CAMERA | STATUS

text \<open>The levels in the order of the loops \<^verbatim>\<open>for (int priority = 0; priority < 5; priority++)\<close>.\<close>

definition priorityLevels :: "Priority list" where
  "priorityLevels = [EMERGENCY, GPS, TELEMETRY, CAMERA, STATUS]"

text \<open>
  \<^verbatim>\<open>struct Packet\<close>. The field \<open>header\<close> is the object representation of the
  \<^verbatim>\<open>LoRaPacketHeader\<close> (12 bytes), because the codec copies it with \<^verbatim>\<open>memcpy\<close>;
  \<open>payload\<close> is the byte sequence \<^verbatim>\<open>payload[0 .. payloadLength - 1]\<close>, so
  \<^verbatim>\<open>payloadLength\<close> is its length. The enumerator names of \<^verbatim>\<open>PacketType\<close> are
  bytes (see above).
\<close>

record Packet =
  header :: "byte list"
  ptype :: byte
  sequenceNumber :: "16 word"
  payload :: "byte list"
  crc16 :: "16 word"
  rssi :: byte
  snr :: byte
  valid :: bool

record QueuedPacket =
  packet :: Packet
  priority :: Priority
  enqueueTime :: "32 word"
  transmitAttempts :: byte
  lastTransmitTime :: "32 word"
  waitingForAck :: bool

text \<open>
  The state of a \<^verbatim>\<open>LoRaManager\<close>. \<open>priorityQueues p\<close> is the live part
  \<^verbatim>\<open>priorityQueues[p - 1][0 .. queueSizes[p - 1] - 1]\<close> of level \<open>p\<close>, so
  \<^verbatim>\<open>queueSizes[p - 1]\<close> is its length. \<open>loraWritten\<close> records what was handed to the
  transceiver driver: each buffer passed to \<^verbatim>\<open>LoRa.write\<close> with the result of
  \<^verbatim>\<open>LoRa.endPacket()\<close>. Signed 8-bit values are bytes read with \<open>sint\<close>.
\<close>

record LoRaManager =
  spreadingFactor :: int
  currentSpreadingFactor :: int
  nextSequenceNumber :: "16 word"
  priorityQueues :: "Priority \<Rightarrow> QueuedPacket list"
  transmitting :: bool
  transmitStartTime :: "32 word"
  lastReceiveTime :: "32 word"
  rssiHistory :: "byte list"
  snrHistory :: "byte list"
  rssiIndex :: nat
  snrIndex :: nat
  lastRssi :: byte
  lastSnr :: byte
  transmitErrorCount :: "32 word"
  receiveErrorCount :: "32 word"
  crcErrorCount :: "32 word"
  ackTimeoutCount :: "32 word"
  loraWritten :: "(byte list \<times> bool) list"

text \<open>
  What one call reads from outside the manager: the clock \<^verbatim>\<open>millis()\<close>, the packet
  the transceiver has received (\<open>rxBytes = []\<close> when \<^verbatim>\<open>LoRa.parsePacket()\<close> returns 0)
  with its signal readings, the contents of the uninitialised local \<^verbatim>\<open>Packet packet\<close> of
  \<^verbatim>\<open>processIncomingPacket\<close>, the result of \<^verbatim>\<open>LoRa.endPacket()\<close> and the signal
  readings taken after a transmission.
\<close>

record Env =
  now :: "32 word"
  rxBytes :: "byte list"
  rxRssi :: byte
  rxSnr :: byte
  rxLocal :: Packet
  txOk :: bool
  txRssi :: byte
  txSnr :: byte

text \<open>The constructor; \<open>rnd\<close> is the value of \<^verbatim>\<open>random(0xFFFF)\<close>.\<close>

definition LoRaManager_new :: "16 word \<Rightarrow> LoRaManager" where
  "LoRaManager_new rnd =
     \<lparr> spreadingFactor = LORA_SPREADING_FACTOR,
       currentSpreadingFactor = LORA_SPREADING_FACTOR,
       nextSequenceNumber = rnd,
       priorityQueues = (\<lambda>p. []),
       transmitting = False,
       transmitStartTime = 0,
       lastReceiveTime = 0,
       rssiHistory = replicate RSSI_HISTORY_SIZE 0,
       snrHistory = replicate RSSI_HISTORY_SIZE 0,
       rssiIndex = 0,
       snrIndex = 0,
       lastRssi = - 128,
       lastSnr = - 128,
       transmitErrorCount = 0,
       receiveErrorCount = 0,
       crcErrorCount = 0,
       ackTimeoutCount = 0,
       loraWritten = [] \<rparr>"

section \<open>Spreading factor (lora\_comm.cpp)\<close>

definition setSpreadingFactor :: "LoRaManager \<Rightarrow> int \<Rightarrow> bool \<times> LoRaManager" where
  "setSpreadingFactor s sf =
     (if sf < 6 \<or> sf > 12 then (False, s)
      else (True, s\<lparr>spreadingFactor := sf, currentSpreadingFactor := sf\<rparr>))"

definition adaptTransmissionSettings :: "LoRaManager \<Rightarrow> byte \<Rightarrow> byte \<Rightarrow> LoRaManager" where
  "adaptTransmissionSettings s rssi_in snr_in =
     (if \<not> ENABLE_ADAPTIVE_SF then s
      else if sint rssi_in > ADAPTIVE_SF_HIGH_THRESHOLD \<and> currentSpreadingFactor s > 7
        then snd (setSpreadingFactor s (currentSpreadingFactor s - 1))
      else if sint rssi_in < ADAPTIVE_SF_LOW_THRESHOLD \<and> currentSpreadingFactor s < 12
        then snd (setSpreadingFactor s (currentSpreadingFactor s + 1))
      else s)"

text \<open>A sequence of calls, one per pair \<open>(rssi, snr)\<close>.\<close>

fun adaptAll :: "LoRaManager \<Rightarrow> (byte \<times> byte) list \<Rightarrow> LoRaManager" where
  "adaptAll s [] = s"
| "adaptAll s (x # xs) = adaptAll (adaptTransmissionSettings s (fst x) (snd x)) xs"

section \<open>Packet codec (lora\_comm.cpp)\<close>

text \<open>
  The bit loop shared by \<^verbatim>\<open>LoRaManager::calculateCRC16\<close> and \<^verbatim>\<open>calculatePacketCRC\<close>:
  \<^verbatim>\<open>if (crc & 1) crc = (crc >> 1) ^ 0xA001; else crc >>= 1;\<close>, eight times per byte after
  \<^verbatim>\<open>crc ^= data[i]\<close>, starting from \<^verbatim>\<open>0xFFFF\<close>.
\<close>

fun crc16_shift :: "nat \<Rightarrow> 16 word \<Rightarrow> 16 word" where
  "crc16_shift 0 crc = crc"
| "crc16_shift (Suc j) crc =
     crc16_shift j (if crc AND 1 \<noteq> 0 then drop_bit 1 crc XOR 0xA001 else drop_bit 1 crc)"

definition LoRaManager_calculateCRC16 :: "byte list \<Rightarrow> 16 word" where
  "LoRaManager_calculateCRC16 data =
     foldl (\<lambda>crc b. crc16_shift 8 (crc XOR ucast b)) 0xFFFF data"

text \<open>
  The bytes both checksum routines and the serialiser lay out before the checksum. The
  checksum routines assemble them in a local array of \<^verbatim>\<open>MAX_PACKET_SIZE\<close> bytes;
  \<^verbatim>\<open>serializePacket\<close> computes the checksum after its size check and \<^verbatim>\<open>receivePacket\<close>
  validates a packet read from at most \<^verbatim>\<open>MAX_PACKET_SIZE\<close> bytes, so on these two paths
  the bytes fit the array.
\<close>

definition packetImage :: "Packet \<Rightarrow> byte list" where
  "packetImage p =
     take sizeof_PacketHeader (header p)
     @ [ptype p,
        ucast (drop_bit 8 (sequenceNumber p) AND 0xFF),
        ucast (sequenceNumber p AND 0xFF)]
     @ payload p"

definition calculatePacketCRC :: "Packet \<Rightarrow> 16 word" where
  "calculatePacketCRC p =
     foldl (\<lambda>crc b. crc16_shift 8 (crc XOR ucast b)) 0xFFFF (packetImage p)"

definition validatePacket :: "Packet \<Rightarrow> bool" where
  "validatePacket p = (LoRaManager_calculateCRC16 (packetImage p) = crc16 p)"

definition serializePacket :: "Packet \<Rightarrow> byte list option" where
  "serializePacket p =
     (let headerSize = sizeof_PacketHeader;
          totalSize = headerSize + 1 + 2 + length (payload p) + 2
      in if totalSize > MAX_PACKET_SIZE then None
         else let crc = calculatePacketCRC p
              in Some (packetImage p
                       @ [ucast (drop_bit 8 crc AND 0xFF), ucast (crc AND 0xFF)]))"

text \<open>
  \<^verbatim>\<open>deserializePacket\<close> writes into the caller's object \<open>p\<close>: the first
  \<^verbatim>\<open>sizeof(PacketHeader)\<close> bytes of its header are overwritten, the rest of the header
  keeps what it held. On failure nothing is written.
\<close>

definition deserializePacket :: "byte list \<Rightarrow> Packet \<Rightarrow> Packet option" where
  "deserializePacket buffer p =
     (let headerSize = sizeof_PacketHeader; len = length buffer
      in if len < headerSize + 5 then None
         else Some (p\<lparr>
           header := take headerSize buffer @ drop headerSize (header p),
           ptype := buffer ! headerSize,
           sequenceNumber :=
             push_bit 8 (ucast (buffer ! (headerSize + 1))) OR ucast (buffer ! (headerSize + 2)),
           payload := take (len - headerSize - 3 - 2) (drop (headerSize + 3) buffer),
           crc16 := push_bit 8 (ucast (buffer ! (len - 2))) OR ucast (buffer ! (len - 1)),
           rssi := - 128,
           snr := - 128,
           valid := False\<rparr>))"

section \<open>Priority queues (lora\_comm.cpp)\<close>

definition addToQueueInternal :: "LoRaManager \<Rightarrow> QueuedPacket \<Rightarrow> LoRaManager" where
  "addToQueueInternal s qp =
     (let q = priorityQueues s (priority qp)
      in if length q < MAX_QUEUE_SIZE
         then s\<lparr>priorityQueues := (priorityQueues s)(priority qp := q @ [qp])\<rparr>
         else s\<lparr>priorityQueues :=
                  (priorityQueues s)(priority qp := take (MAX_QUEUE_SIZE - 1) (tl q) @ [qp])\<rparr>)"

definition sendPacket :: "LoRaManager \<Rightarrow> 32 word \<Rightarrow> Packet \<Rightarrow> Priority \<Rightarrow> bool \<times> LoRaManager" where
  "sendPacket s millis p prio =
     (True, addToQueueInternal s
        \<lparr> packet = p, priority = prio, enqueueTime = millis, transmitAttempts = 0,
          lastTransmitTime = 0, waitingForAck = False \<rparr>)"

text \<open>
  \<^verbatim>\<open>getNextPacket\<close> returns \<^verbatim>\<open>&priorityQueues[priority][0]\<close> for the first level
  with \<^verbatim>\<open>queueSizes[priority] > 0\<close>, or \<^verbatim>\<open>nullptr\<close>. A pointer to a queue entry is
  the pair of its level and its index in that level.
\<close>

fun firstNonEmpty ::
  "(Priority \<Rightarrow> QueuedPacket list) \<Rightarrow> Priority list \<Rightarrow> (Priority \<times> nat) option" where
  "firstNonEmpty qs [] = None"
| "firstNonEmpty qs (p # ps) = (if length (qs p) > 0 then Some (p, 0) else firstNonEmpty qs ps)"

definition getNextPacket :: "LoRaManager \<Rightarrow> (Priority \<times> nat) option" where
  "getNextPacket s = firstNonEmpty (priorityQueues s) priorityLevels"

text \<open>\<^verbatim>\<open>static_cast<int>(priority) - 1\<close>, the row of a priority.\<close>

fun priorityIndex :: "Priority \<Rightarrow> nat" where
  "priorityIndex EMERGENCY = 0"
| "priorityIndex GPS = 1"
| "priorityIndex TELEMETRY = 2"
| "priorityIndex CAMERA = 3"
| "priorityIndex STATUS = 4"

text \<open>
  \<^verbatim>\<open>removePacketFromQueue\<close> shifts the entries after \<open>index\<close> down and decrements the
  size; with an index at or past the last entry nothing is shifted and the last entry is cut off.
\<close>

definition removePacketFromQueue :: "LoRaManager \<Rightarrow> Priority \<Rightarrow> nat \<Rightarrow> LoRaManager" where
  "removePacketFromQueue s prio index =
     (let q = priorityQueues s prio
      in s\<lparr>priorityQueues := (priorityQueues s)(prio :=
             (if index < length q then take index q @ drop (Suc index) q else butlast q))\<rparr>)"

section \<open>Transmission and reception (lora\_comm.cpp)\<close>

definition updateSignalQuality :: "LoRaManager \<Rightarrow> byte \<Rightarrow> byte \<Rightarrow> LoRaManager" where
  "updateSignalQuality s rssi_in snr_in =
     s\<lparr>rssiHistory := (rssiHistory s)[rssiIndex s := rssi_in],
       rssiIndex := (rssiIndex s + 1) mod RSSI_HISTORY_SIZE,
       snrHistory := (snrHistory s)[snrIndex s := snr_in],
       snrIndex := (snrIndex s + 1) mod RSSI_HISTORY_SIZE,
       lastRssi := rssi_in,
       lastSnr := snr_in\<rparr>"

definition transmitPacket :: "LoRaManager \<Rightarrow> Env \<Rightarrow> Packet \<Rightarrow> bool \<times> LoRaManager" where
  "transmitPacket s env p =
     (case serializePacket p of
        None \<Rightarrow> (False, s)
      | Some buffer \<Rightarrow>
          (let s1 = s\<lparr>loraWritten := loraWritten s @ [(buffer, txOk env)]\<rparr>
           in if txOk env
              then (True, updateSignalQuality
                            (s1\<lparr>transmitting := False, transmitStartTime := 0\<rparr>)
                            (txRssi env) (txSnr env))
              else (False, s1)))"

text \<open>
  \<^verbatim>\<open>receivePacket(Packet& packet)\<close>: the result is the return value, the caller's packet
  object afterwards, and the manager afterwards. The read loop stops after
  \<^verbatim>\<open>MAX_PACKET_SIZE\<close> bytes.
\<close>

definition receivePacket :: "LoRaManager \<Rightarrow> Env \<Rightarrow> Packet \<Rightarrow> bool \<times> Packet \<times> LoRaManager" where
  "receivePacket s env p =
     (if length (rxBytes env) = 0 then (False, p, s)
      else
        let buffer = take MAX_PACKET_SIZE (rxBytes env);
            s1 = (updateSignalQuality s (rxRssi env) (rxSnr env))\<lparr>lastReceiveTime := now env\<rparr>
        in case deserializePacket buffer p of
             Some p1 \<Rightarrow>
               if validatePacket p1
               then (True, p1\<lparr>rssi := lastRssi s1, snr := lastSnr s1, valid := True\<rparr>, s1)
               else (False, p1, s1\<lparr>crcErrorCount := crcErrorCount s1 + 1\<rparr>)
           | None \<Rightarrow> (False, p, s1\<lparr>receiveErrorCount := receiveErrorCount s1 + 1\<rparr>))"

section \<open>ACK and NACK handling (lora\_comm.cpp)\<close>

text \<open>
  The two nested loops of \<^verbatim>\<open>handleAck\<close> and \<^verbatim>\<open>handleNack\<close> look for the first entry,
  level by level and from index 0 in each level, with
  \<^verbatim>\<open>qp->packet.sequenceNumber == seq && qp->waitingForAck\<close>.
\<close>

fun findWaiting :: "16 word \<Rightarrow> QueuedPacket list \<Rightarrow> nat option" where
  "findWaiting seq [] = None"
| "findWaiting seq (qp # qps) =
     (if sequenceNumber (packet qp) = seq \<and> waitingForAck qp then Some 0
      else map_option Suc (findWaiting seq qps))"

fun findWaitingLevel ::
  "(Priority \<Rightarrow> QueuedPacket list) \<Rightarrow> 16 word \<Rightarrow> Priority list \<Rightarrow> (Priority \<times> nat) option" where
  "findWaitingLevel qs seq [] = None"
| "findWaitingLevel qs seq (p # ps) =
     (case findWaiting seq (qs p) of
        Some i \<Rightarrow> Some (p, i)
      | None \<Rightarrow> findWaitingLevel qs seq ps)"

definition handleAck :: "LoRaManager \<Rightarrow> Packet \<Rightarrow> LoRaManager" where
  "handleAck s ack =
     (if length (payload ack) < 4 then s
      else
        let ackSequence = push_bit 8 (ucast (payload ack ! 0)) OR ucast (payload ack ! 1) :: 16 word;
            rssi_in = payload ack ! 3
        in case findWaitingLevel (priorityQueues s) ackSequence priorityLevels of
             Some (prio, i) \<Rightarrow>
               adaptTransmissionSettings (removePacketFromQueue s prio i) rssi_in (snr ack)
           | None \<Rightarrow> s)"

definition handleNack :: "LoRaManager \<Rightarrow> Packet \<Rightarrow> LoRaManager" where
  "handleNack s nack =
     (if length (payload nack) < 3 then s
      else
        let nackSequence = push_bit 8 (ucast (payload nack ! 0)) OR ucast (payload nack ! 1) :: 16 word
        in case findWaitingLevel (priorityQueues s) nackSequence priorityLevels of
             Some (prio, i) \<Rightarrow>
               (let q = priorityQueues s prio
                in s\<lparr>priorityQueues :=
                       (priorityQueues s)
                         (prio := list_update q i ((q ! i)\<lparr>waitingForAck := False\<rparr>))\<rparr>)
           | None \<Rightarrow> s)"

definition processIncomingPacket :: "LoRaManager \<Rightarrow> Env \<Rightarrow> LoRaManager" where
  "processIncomingPacket s env =
     (case receivePacket s env (rxLocal env) of
        (True, p, s1) \<Rightarrow>
          if ptype p = PacketType_ACK then handleAck s1 p
          else if ptype p = PacketType_NACK then handleNack s1 p
          else s1
      | (False, p, s1) \<Rightarrow> s1)"

section \<open>The queue tick (lora\_comm.cpp)\<close>

text \<open>
  \<^verbatim>\<open>processQueue\<close>. \<open>(lvl, idx)\<close> is the pointer \<^verbatim>\<open>nextPacket\<close>. Entries are
  filed under their own \<^verbatim>\<open>priority\<close> field by \<^verbatim>\<open>addToQueueInternal\<close>, so the
  pointer difference \<^verbatim>\<open>nextPacket - &priorityQueues[priorityIndex][0]\<close> is \<open>idx\<close>.
  All calls of \<^verbatim>\<open>millis()\<close> within one tick read \<open>now env\<close>.
\<close>

definition processQueue :: "LoRaManager \<Rightarrow> Env \<Rightarrow> bool \<times> LoRaManager" where
  "processQueue s env =
     (let s1 = processIncomingPacket s env
      in case getNextPacket s1 of
           None \<Rightarrow> (False, s1)
         | Some (lvl, idx) \<Rightarrow>
             let nextPacket = priorityQueues s1 lvl ! idx;
                 timedOut = (now env - lastTransmitTime nextPacket > ACK_TIMEOUT_MS)
             in if waitingForAck nextPacket \<and> \<not> timedOut then (False, s1)
                else
                  let (nextPacket2, s2) =
                        (if waitingForAck nextPacket
                         then (nextPacket\<lparr>waitingForAck := False\<rparr>,
                               s1\<lparr>ackTimeoutCount := ackTimeoutCount s1 + 1,
                                  priorityQueues := (priorityQueues s1)
                                     (lvl := list_update (priorityQueues s1 lvl) idx
                                               (nextPacket\<lparr>waitingForAck := False\<rparr>))\<rparr>)
                         else (nextPacket, s1))
                  in if unat (transmitAttempts nextPacket2) \<ge> MAX_RETRIES
                     then
                       let s3 = removePacketFromQueue s2 (priority nextPacket2) idx
                       in (False, s3\<lparr>transmitErrorCount := transmitErrorCount s3 + 1\<rparr>)
                     else
                       (case transmitPacket s2 env (packet nextPacket2) of
                         (True, s3) \<Rightarrow>
                           (True, s3\<lparr>transmitStartTime := now env,
                                     transmitting := True,
                                     priorityQueues := (priorityQueues s3)
                                       (lvl := list_update (priorityQueues s3 lvl) idx
                                          (nextPacket2\<lparr>
                                             transmitAttempts := transmitAttempts nextPacket2 + 1,
                                             lastTransmitTime := now env,
                                             waitingForAck := True\<rparr>))\<rparr>)
                       | (False, s3) \<Rightarrow>
                           (False, s3\<lparr>transmitErrorCount := transmitErrorCount s3 + 1\<rparr>)))"

section \<open>Packet creation (lora\_comm.cpp)\<close>

definition DEVICE_TYPE :: byte where "DEVICE_TYPE = 1"

text \<open>
  \<^verbatim>\<open>getAverageRSSI\<close> and \<^verbatim>\<open>getAverageSNR\<close>: the mean of the non-zero history slots,
  with the division of C++ (towards zero) and the conversion to \<^verbatim>\<open>int8_t\<close>.
\<close>

definition averageNonZero :: "byte list \<Rightarrow> byte" where
  "averageNonZero hist =
     (let used = filter (\<lambda>x. x \<noteq> 0) (take RSSI_HISTORY_SIZE hist);
          total = sum_list (map sint used);
          count = int (length used)
      in if count > 0 then word_of_int (sgn total * (\<bar>total\<bar> div count)) else - 128)"

definition getAverageRSSI :: "LoRaManager \<Rightarrow> byte" where
  "getAverageRSSI s = averageNonZero (rssiHistory s)"

definition getAverageSNR :: "LoRaManager \<Rightarrow> byte" where
  "getAverageSNR s = averageNonZero (snrHistory s)"

text \<open>
  \<^verbatim>\<open>createPacket\<close> reads the averages of the global manager \<^verbatim>\<open>LoRaComm()\<close>, here
  \<open>s\<close>. The header bytes are the little-endian object representation of
  \<^verbatim>\<open>LoRaPacketHeader\<close>: version, deviceId, flags, retryCount, timestamp (4 bytes),
  batteryLevel (2 bytes), rssiAvg, snrAvg.
\<close>

definition createPacket :: "LoRaManager \<Rightarrow> 32 word \<Rightarrow> byte \<Rightarrow> byte list \<Rightarrow> Packet" where
  "createPacket s millis type pl =
     (let timestamp = millis div 1000; batteryLevel = 330 :: 16 word
      in \<lparr> header =
             [0x01, DEVICE_TYPE, 0, 0,
              ucast timestamp, ucast (drop_bit 8 timestamp),
              ucast (drop_bit 16 timestamp), ucast (drop_bit 24 timestamp),
              ucast batteryLevel, ucast (drop_bit 8 batteryLevel),
              getAverageRSSI s, getAverageSNR s],
           ptype = type,
           sequenceNumber = 0,
           payload = pl,
           crc16 = 0,
           rssi = - 128,
           snr = - 128,
           valid = False \<rparr>)"

definition sendTelemetry :: "LoRaManager \<Rightarrow> 32 word \<Rightarrow> byte list \<Rightarrow> bool \<times> LoRaManager" where
  "sendTelemetry s millis data =
     sendPacket s millis (createPacket s millis PacketType_TELEMETRY data) TELEMETRY"

definition sendGPSData :: "LoRaManager \<Rightarrow> 32 word \<Rightarrow> byte list \<Rightarrow> bool \<times> LoRaManager" where
  "sendGPSData s millis data =
     sendPacket s millis (createPacket s millis PacketType_GPS data) GPS"

definition sendCameraThumbnail :: "LoRaManager \<Rightarrow> 32 word \<Rightarrow> byte list \<Rightarrow> bool \<times> LoRaManager" where
  "sendCameraThumbnail s millis data =
     sendPacket s millis (createPacket s millis PacketType_CAMERA_THUMB data) CAMERA"

definition sendStatus :: "LoRaManager \<Rightarrow> 32 word \<Rightarrow> byte list \<Rightarrow> bool \<times> LoRaManager" where
  "sendStatus s millis data =
     sendPacket s millis (createPacket s millis PacketType_STATUS data) STATUS"

definition sendEmergency :: "LoRaManager \<Rightarrow> 32 word \<Rightarrow> byte list \<Rightarrow> bool \<times> LoRaManager" where
  "sendEmergency s millis data =
     sendPacket s millis (createPacket s millis PacketType_EMERGENCY data) EMERGENCY"

section \<open>Packet handler (packet\_handler.h, packet\_handler.cpp)\<close>

definition PACKET_START_BYTE1 :: byte where "PACKET_START_BYTE1 = 0xAA"
definition PACKET_START_BYTE2 :: byte where "PACKET_START_BYTE2 = 0x55"
definition PACKET_END_BYTE1 :: byte where "PACKET_END_BYTE1 = 0x0D"
definition PACKET_END_BYTE2 :: byte where "PACKET_END_BYTE2 = 0x0A"
definition MAX_PAYLOAD_SIZE :: nat where "MAX_PAYLOAD_SIZE = 200"
definition CRC8_POLYNOMIAL :: byte where "CRC8_POLYNOMIAL = 0x07"
definition CRC16_POLYNOMIAL :: "16 word" where "CRC16_POLYNOMIAL = 0x1021"
definition sizeof_receiveBuffer :: nat where "sizeof_receiveBuffer = 512"
definition PacketPriority_PRIORITY_LOW :: byte where "PacketPriority_PRIORITY_LOW = 0"
definition PacketPriority_PRIORITY_NORMAL :: byte where "PacketPriority_PRIORITY_NORMAL = 1"

text \<open>
  \<^verbatim>\<open>struct PacketBuffer\<close>; \<open>pb_data = None\<close> is the null pointer, and \<^verbatim>\<open>size\<close> and
  \<^verbatim>\<open>capacity\<close> are the length of the data.
\<close>

record PacketBuffer =
  pb_data :: "byte list option"
  pb_timestamp :: "32 word"
  pb_priority :: byte
  pb_ready :: bool

text \<open>
  The state of a \<^verbatim>\<open>PacketHandler\<close>. \<open>receiveBuffer\<close> holds the first
  \<open>receiveIndex\<close> bytes of the array \<^verbatim>\<open>receiveBuffer[512]\<close>: every read of the
  array is below \<^verbatim>\<open>receiveIndex\<close>, and every byte below it was written since the index
  was last 0. \<open>currentHeader\<close> is the object representation of the
  \<^verbatim>\<open>PacketHeader\<close> (8 bytes); \<open>packetQueue\<close> is the live part
  \<^verbatim>\<open>packetQueue[0 .. queueSize - 1]\<close>.
\<close>

record PacketHandler =
  currentSequenceNumber :: byte
  receiveBuffer :: "byte list"
  receiveIndex :: nat
  inPacket :: bool
  currentHeader :: "byte list"
  expectedPayloadSize :: nat
  lastPacketTime :: "32 word"
  packetQueue :: "PacketBuffer list"
  maxPacketSize :: nat
  packetsSent :: "32 word"
  packetsReceived :: "32 word"
  packetsDropped :: "32 word"
  crcErrors :: "32 word"

text \<open>
  What a call reads from outside the handler: the clock, the block returned by the
  \<^verbatim>\<open>malloc\<close> of \<^verbatim>\<open>assemblePacket\<close> (\<open>None\<close> when it fails, otherwise the
  uninitialised contents of the block) and whether the \<^verbatim>\<open>malloc\<close> of
  \<^verbatim>\<open>addToBuffer\<close> succeeds.
\<close>

record HandlerEnv =
  millis :: "32 word"
  assembleBlock :: "nat \<Rightarrow> byte list option"
  bufferMallocOk :: bool

definition PacketHandler_new :: PacketHandler where
  "PacketHandler_new =
     \<lparr> currentSequenceNumber = 0, receiveBuffer = [], receiveIndex = 0, inPacket = False,
       currentHeader = replicate sizeof_PacketHeader 0, expectedPayloadSize = 0,
       lastPacketTime = 0, packetQueue = [], maxPacketSize = MAX_PACKET_SIZE,
       packetsSent = 0, packetsReceived = 0, packetsDropped = 0, crcErrors = 0 \<rparr>"

definition setSequenceNumber :: "PacketHandler \<Rightarrow> byte \<Rightarrow> PacketHandler" where
  "setSequenceNumber s seq = s\<lparr>currentSequenceNumber := seq\<rparr>"

subsection \<open>Checksums\<close>

fun crc8_shift :: "nat \<Rightarrow> byte \<Rightarrow> byte" where
  "crc8_shift 0 crc = crc"
| "crc8_shift (Suc j) crc =
     crc8_shift j (if crc AND 0x80 \<noteq> 0 then push_bit 1 crc XOR CRC8_POLYNOMIAL
                   else push_bit 1 crc)"

definition calculateCRC8 :: "byte list \<Rightarrow> byte" where
  "calculateCRC8 data = foldl (\<lambda>crc b. crc8_shift 8 (crc XOR b)) 0x00 data"

fun crc16_ccitt_shift :: "nat \<Rightarrow> 16 word \<Rightarrow> 16 word" where
  "crc16_ccitt_shift 0 crc = crc"
| "crc16_ccitt_shift (Suc j) crc =
     crc16_ccitt_shift j (if crc AND 0x8000 \<noteq> 0 then push_bit 1 crc XOR CRC16_POLYNOMIAL
                          else push_bit 1 crc)"

definition PacketHandler_calculateCRC16 :: "byte list \<Rightarrow> 16 word" where
  "PacketHandler_calculateCRC16 data =
     foldl (\<lambda>crc b. crc16_ccitt_shift 8 (crc XOR push_bit 8 (ucast b))) 0x0000 data"

definition uint16ToBytes :: "16 word \<Rightarrow> byte list" where
  "uint16ToBytes v = [ucast (drop_bit 8 v), ucast (v AND 0xFF)]"

text \<open>Fields read through a \<^verbatim>\<open>PacketHeader*\<close> or \<^verbatim>\<open>PacketFooter*\<close> (little-endian).\<close>

definition header_packetType :: "byte list \<Rightarrow> byte" where
  "header_packetType h = h ! 2"

definition header_payloadLength :: "byte list \<Rightarrow> nat" where
  "header_payloadLength h = unat (h ! 4) + 256 * unat (h ! 5)"

definition header_crc8 :: "byte list \<Rightarrow> byte" where
  "header_crc8 h = h ! 6"

definition footer_crc16 :: "byte list \<Rightarrow> 16 word" where
  "footer_crc16 f = ucast (f ! 0) OR push_bit 8 (ucast (f ! 1))"

text \<open>
  \<^verbatim>\<open>verifyCRC\<close> returns its result and the handler with its error counter. The header
  checksum is taken over \<^verbatim>\<open>sizeof(PacketHeader) - 1\<close> = 7 bytes, which include the stored
  \<^verbatim>\<open>crc8\<close> at offset 6.
\<close>

definition verifyCRC :: "PacketHandler \<Rightarrow> byte list \<Rightarrow> bool \<times> PacketHandler" where
  "verifyCRC s pkt =
     (if length pkt < sizeof_PacketHeader + sizeof_PacketFooter then (False, s)
      else
        let headerCRC = calculateCRC8 (take (sizeof_PacketHeader - 1) pkt)
        in if headerCRC \<noteq> header_crc8 pkt then (False, s\<lparr>crcErrors := crcErrors s + 1\<rparr>)
           else
             let payloadSize = header_payloadLength pkt;
                 payloadCRC = PacketHandler_calculateCRC16
                                (take payloadSize (drop sizeof_PacketHeader pkt))
             in if payloadCRC \<noteq> footer_crc16 (drop (sizeof_PacketHeader + payloadSize) pkt)
                then (False, s\<lparr>crcErrors := crcErrors s + 1\<rparr>)
                else (True, s))"

subsection \<open>Receive framing\<close>

definition resetReceiveState :: "PacketHandler \<Rightarrow> PacketHandler" where
  "resetReceiveState s =
     s\<lparr>receiveIndex := 0, receiveBuffer := [], inPacket := False,
       currentHeader := replicate sizeof_PacketHeader 0, expectedPayloadSize := 0\<rparr>"

definition validateHeader :: "byte list \<Rightarrow> bool" where
  "validateHeader h =
     (if unat (header_packetType h) < unat PacketType_HEARTBEAT
         \<or> unat (header_packetType h) > unat PacketType_DEBUG then False
      else if header_payloadLength h > MAX_PAYLOAD_SIZE then False
      else True)"

definition processCompletePacket :: "PacketHandler \<Rightarrow> bool \<times> PacketHandler" where
  "processCompletePacket s =
     (case verifyCRC s (take (receiveIndex s) (receiveBuffer s)) of
        (False, s1) \<Rightarrow> (False, s1\<lparr>crcErrors := crcErrors s1 + 1\<rparr>)
      | (True, s1) \<Rightarrow>
          (let s2 = s1\<lparr>packetsReceived := packetsReceived s1 + 1\<rparr>
           in (True, s2\<lparr>packetsReceived := packetsReceived s2 + 1\<rparr>)))"

definition storeByte :: "PacketHandler \<Rightarrow> byte \<Rightarrow> PacketHandler" where
  "storeByte s b = s\<lparr>receiveBuffer := take (receiveIndex s) (receiveBuffer s) @ [b],
                     receiveIndex := receiveIndex s + 1\<rparr>"

definition processReceivedByte :: "PacketHandler \<Rightarrow> byte \<Rightarrow> bool \<times> PacketHandler" where
  "processReceivedByte s b =
     (if \<not> inPacket s then
        (if receiveIndex s = 0 \<and> b = PACKET_START_BYTE1 then (False, storeByte s b)
         else if receiveIndex s = 1 \<and> b = PACKET_START_BYTE2
           then (False, (storeByte s b)\<lparr>inPacket := True\<rparr>)
         else (False, s\<lparr>receiveIndex := 0, receiveBuffer := []\<rparr>))
      else
        let s1 = storeByte s b;
            atHeader = (receiveIndex s1 = sizeof_PacketHeader);
            hdr = take sizeof_PacketHeader (receiveBuffer s1)
        in if atHeader \<and> \<not> validateHeader hdr
           then (False, (resetReceiveState (s1\<lparr>currentHeader := hdr\<rparr>))
                          \<lparr>crcErrors := crcErrors s1 + 1\<rparr>)
           else if atHeader \<and> sizeof_PacketHeader + header_payloadLength hdr + sizeof_PacketFooter
                                > sizeof_receiveBuffer
           then (False, resetReceiveState
                          (s1\<lparr>currentHeader := hdr,
                              expectedPayloadSize := header_payloadLength hdr\<rparr>))
           else
             let s2 = (if atHeader
                       then s1\<lparr>currentHeader := hdr,
                               expectedPayloadSize := header_payloadLength hdr\<rparr>
                       else s1);
                 totalExpectedSize =
                   sizeof_PacketHeader + expectedPayloadSize s2 + sizeof_PacketFooter
             in if receiveIndex s2 \<ge> totalExpectedSize
                then (case processCompletePacket s2 of
                        (success, s3) \<Rightarrow> (success, resetReceiveState s3))
                else (False, s2))"

text \<open>The loop of \<^verbatim>\<open>processIncomingData\<close> over the bytes, with its flag.\<close>

fun receiveBytes :: "PacketHandler \<Rightarrow> bool \<Rightarrow> byte list \<Rightarrow> bool \<times> PacketHandler" where
  "receiveBytes s packetProcessed [] = (packetProcessed, s)"
| "receiveBytes s packetProcessed (b # bs) =
     (case processReceivedByte s b of
        (True, s1) \<Rightarrow> receiveBytes s1 True bs
      | (False, s1) \<Rightarrow> receiveBytes s1 packetProcessed bs)"

definition processIncomingData ::
  "PacketHandler \<Rightarrow> HandlerEnv \<Rightarrow> byte list \<Rightarrow> bool \<times> PacketHandler" where
  "processIncomingData s env data =
     (if length data = 0 then (False, s)
      else case receiveBytes s False data of
             (True, s1) \<Rightarrow> (True, s1\<lparr>lastPacketTime := millis env\<rparr>)
           | (False, s1) \<Rightarrow> (False, s1))"

subsection \<open>Packet assembly and the send buffer\<close>

text \<open>
  \<^verbatim>\<open>assemblePacket\<close> allocates \<^verbatim>\<open>sizeof(PacketHeader) + payloadSize + sizeof(PacketFooter)\<close>
  bytes and writes seven header bytes, the payload and four footer bytes, so the last byte
  of the block keeps what \<^verbatim>\<open>malloc\<close> returned. The header checksum is computed over the
  first seven bytes of the block before the byte at offset 6 is written.
\<close>

definition assemblePacket ::
  "PacketHandler \<Rightarrow> HandlerEnv \<Rightarrow> byte \<Rightarrow> byte list \<Rightarrow> byte list option" where
  "assemblePacket s env type pl =
     (let packetSize = sizeof_PacketHeader + length pl + sizeof_PacketFooter
      in if packetSize > maxPacketSize s then None
         else case assembleBlock env packetSize of
                None \<Rightarrow> None
              | Some block \<Rightarrow>
                  (let start = [PACKET_START_BYTE1, PACKET_START_BYTE2, type,
                                currentSequenceNumber s]
                               @ uint16ToBytes (word_of_nat (length pl));
                       headerCRC = calculateCRC8 (start @ [block ! 6]);
                       payloadCRC = PacketHandler_calculateCRC16 pl
                   in Some (start @ [headerCRC] @ pl @ uint16ToBytes payloadCRC
                            @ [PACKET_END_BYTE1, PACKET_END_BYTE2]
                            @ [block ! (packetSize - 1)])))"

fun findOldestLoop :: "PacketBuffer list \<Rightarrow> nat \<Rightarrow> nat \<Rightarrow> 32 word \<Rightarrow> nat" where
  "findOldestLoop [] i oldestIndex oldestTime = oldestIndex"
| "findOldestLoop (b # bs) i oldestIndex oldestTime =
     (if (pb_priority b = PacketPriority_PRIORITY_LOW
            \<or> pb_priority b = PacketPriority_PRIORITY_NORMAL)
         \<and> pb_timestamp b < oldestTime
      then findOldestLoop bs (i + 1) i (pb_timestamp b)
      else findOldestLoop bs (i + 1) oldestIndex oldestTime)"

definition findOldestLowPriorityPacket :: "PacketHandler \<Rightarrow> nat" where
  "findOldestLowPriorityPacket s = findOldestLoop (packetQueue s) 0 16 0xFFFFFFFF"

fun findInsertPos :: "byte \<Rightarrow> PacketBuffer list \<Rightarrow> nat \<Rightarrow> nat" where
  "findInsertPos prio [] i = i"
| "findInsertPos prio (b # bs) i =
     (if unat prio > unat (pb_priority b) then i else findInsertPos prio bs (i + 1))"

text \<open>
  \<^verbatim>\<open>addToBuffer\<close>. When its \<^verbatim>\<open>malloc\<close> fails the entries from the insertion point
  on have already been moved up by one and the slot at the insertion point has a null data
  pointer, while \<^verbatim>\<open>queueSize\<close> is not incremented.
\<close>

definition addToBuffer ::
  "PacketHandler \<Rightarrow> HandlerEnv \<Rightarrow> byte list \<Rightarrow> byte \<Rightarrow> bool \<times> PacketHandler" where
  "addToBuffer s env dat prio =
     (let full = (length (packetQueue s) \<ge> 16);
          oldestIndex = findOldestLowPriorityPacket s
      in if full \<and> \<not> oldestIndex < 16
         then (False, s\<lparr>packetsDropped := packetsDropped s + 1\<rparr>)
         else
           let q = (if full
                    then take oldestIndex (packetQueue s) @ drop (Suc oldestIndex) (packetQueue s)
                    else packetQueue s);
               insertPos = findInsertPos prio q 0
           in if \<not> bufferMallocOk env
              then (False, s\<lparr>packetQueue :=
                      (if insertPos < length q
                       then take insertPos q @ [(q ! insertPos)\<lparr>pb_data := None\<rparr>]
                            @ drop insertPos (butlast q)
                       else q)\<rparr>)
              else (True, s\<lparr>packetQueue :=
                      take insertPos q
                      @ [\<lparr> pb_data = Some dat, pb_timestamp = millis env,
                            pb_priority = prio, pb_ready = True \<rparr>]
                      @ drop insertPos q\<rparr>))"

definition PacketHandler_createPacket ::
  "PacketHandler \<Rightarrow> HandlerEnv \<Rightarrow> byte \<Rightarrow> byte list \<Rightarrow> bool \<times> PacketHandler" where
  "PacketHandler_createPacket s env type pl =
     (if length pl > MAX_PAYLOAD_SIZE then (False, s)
      else case assemblePacket s env type pl of
             None \<Rightarrow> (False, s)
           | Some packetData \<Rightarrow> addToBuffer s env packetData PacketPriority_PRIORITY_NORMAL)"

definition createHeartbeatPacket :: "PacketHandler \<Rightarrow> HandlerEnv \<Rightarrow> bool \<times> PacketHandler" where
  "createHeartbeatPacket s env =
     (let s1 = s\<lparr>currentSequenceNumber := currentSequenceNumber s + 1\<rparr>
      in PacketHandler_createPacket s1 env PacketType_HEARTBEAT [currentSequenceNumber s1])"

section \<open>Runs, reachable states and predicates used in the properties\<close>

text \<open>A run of \<^verbatim>\<open>processQueue\<close> ticks, one per environment.\<close>

fun processQueueTicks :: "LoRaManager \<Rightarrow> Env list \<Rightarrow> LoRaManager" where
  "processQueueTicks s [] = s"
| "processQueueTicks s (env # envs) = processQueueTicks (snd (processQueue s env)) envs"

text \<open>
  A tick in which the transceiver has received nothing and the transmit primitive succeeds;
  and a tick at whose time the ACK timeout counted from \<open>t\<close> has not yet expired.
\<close>

definition quietTick :: "Env \<Rightarrow> bool" where
  "quietTick env = (rxBytes env = [] \<and> txOk env)"





text \<open>Two queues that differ at most in \<^verbatim>\<open>waitingForAck\<close> flags.\<close>

definition sameButFlags :: "QueuedPacket list \<Rightarrow> QueuedPacket list \<Rightarrow> bool" where
  "sameButFlags q' q =
     (map (\<lambda>x. x\<lparr>waitingForAck := False\<rparr>) q' = map (\<lambda>x. x\<lparr>waitingForAck := False\<rparr>) q)"

text \<open>No entry behind the head of a level is waiting for an ACK.\<close>

definition waitingOnlyAtHead :: "QueuedPacket list \<Rightarrow> bool" where
  "waitingOnlyAtHead q = (\<forall>x\<in>set (tl q). \<not> waitingForAck x)"

definition singleFlightPerLevel :: "LoRaManager \<Rightarrow> bool" where
  "singleFlightPerLevel s = (\<forall>p. waitingOnlyAtHead (priorityQueues s p))"

text \<open>
  The test of the loops in \<^verbatim>\<open>handleAck\<close> and \<^verbatim>\<open>handleNack\<close>: the entry has the
  sequence number and waits for an ACK.
\<close>

definition nackTarget :: "16 word \<Rightarrow> QueuedPacket \<Rightarrow> bool" where
  "nackTarget seq qp = (sequenceNumber (packet qp) = seq \<and> waitingForAck qp)"

text \<open>The number of entries, over all five levels, that wait for an ACK.\<close>

definition waitingCount :: "LoRaManager \<Rightarrow> nat" where
  "waitingCount s = sum_list (map (\<lambda>p. length (filter waitingForAck (priorityQueues s p)))
                                 priorityLevels)"

text \<open>
  The states a manager can be in: the constructed one, and what \<^verbatim>\<open>sendPacket\<close>,
  \<^verbatim>\<open>processQueue\<close>, \<^verbatim>\<open>handleAck\<close> and \<^verbatim>\<open>handleNack\<close> make of a reachable one.
\<close>

inductive reachable :: "LoRaManager \<Rightarrow> bool" where
  reach_new: "reachable (LoRaManager_new rnd)"
| reach_sendPacket: "reachable s \<Longrightarrow> reachable (snd (sendPacket s t p prio))"
| reach_processQueue: "reachable s \<Longrightarrow> reachable (snd (processQueue s env))"
| reach_handleAck: "reachable s \<Longrightarrow> reachable (handleAck s ack)"
| reach_handleNack: "reachable s \<Longrightarrow> reachable (handleNack s nack)"

text \<open>
  The calls that change the queues, and a sequence of them applied to a manager from left
  to right.
\<close>

datatype Call =
    SendPacket "32 word" Packet Priority
  | ProcessQueue Env
  | HandleAck Packet
  | HandleNack Packet

fun call :: "LoRaManager \<Rightarrow> Call \<Rightarrow> LoRaManager" where
  "call s (SendPacket t p prio) = snd (sendPacket s t p prio)"
| "call s (ProcessQueue env) = snd (processQueue s env)"
| "call s (HandleAck ack) = handleAck s ack"
| "call s (HandleNack nack) = handleNack s nack"

fun calls :: "LoRaManager \<Rightarrow> Call list \<Rightarrow> LoRaManager" where
  "calls s [] = s"
| "calls s (c # cs) = calls (call s c) cs"

text \<open>
  A queue entry with the fields that \<^verbatim>\<open>processQueue\<close>, \<^verbatim>\<open>handleAck\<close> and
  \<^verbatim>\<open>handleNack\<close> write set back to what \<^verbatim>\<open>sendPacket\<close> gave them; the entry that one
  call files under a level; and the entries a sequence of calls files under a level,
  in the order of the calls.
\<close>

definition asEnqueued :: "QueuedPacket \<Rightarrow> QueuedPacket" where
  "asEnqueued qp = qp\<lparr>transmitAttempts := 0, lastTransmitTime := 0, waitingForAck := False\<rparr>"

fun sentBy :: "Priority \<Rightarrow> Call \<Rightarrow> QueuedPacket list" where
  "sentBy lvl (SendPacket t p prio) =
     (if prio = lvl
      then [\<lparr> packet = p, priority = prio, enqueueTime = t, transmitAttempts = 0,
              lastTransmitTime = 0, waitingForAck = False \<rparr>]
      else [])"
| "sentBy lvl (ProcessQueue env) = []"
| "sentBy lvl (HandleAck ack) = []"
| "sentBy lvl (HandleNack nack) = []"

definition sentTo :: "Priority \<Rightarrow> Call list \<Rightarrow> QueuedPacket list" where
  "sentTo lvl cs = concat (map (sentBy lvl) cs)"

text \<open>The buffer \<^verbatim>\<open>serializePacket\<close> fills for a packet it accepts.\<close>

definition serialized :: "Packet \<Rightarrow> byte list" where
  "serialized p = the (serializePacket p)"

section \<open>Example states\<close>

text \<open>
  A packet as \<^verbatim>\<open>createPacket\<close> makes it on a freshly constructed manager at time 0; its
  sequence number is 0.
\<close>

definition testPacket :: "byte \<Rightarrow> byte list \<Rightarrow> Packet" where
  "testPacket type pl = createPacket (LoRaManager_new 0) 0 type pl"

definition blankPacket :: Packet where
  "blankPacket =
     \<lparr> header = replicate sizeof_LoRaPacketHeader 0, ptype = 0, sequenceNumber = 0,
       payload = [], crc16 = 0, rssi = 0, snr = 0, valid = False \<rparr>"

text \<open>Nothing received, transmission succeeds; and the same with a failing transmission.\<close>

definition quietEnv :: "32 word \<Rightarrow> Env" where
  "quietEnv t = \<lparr> now = t, rxBytes = [], rxRssi = 0, rxSnr = 0, rxLocal = blankPacket,
                  txOk = True, txRssi = 0xC4, txSnr = 0x0A \<rparr>"

definition failingEnv :: "32 word \<Rightarrow> Env" where
  "failingEnv t = \<lparr> now = t, rxBytes = [], rxRssi = 0, rxSnr = 0, rxLocal = blankPacket,
                    txOk = False, txRssi = 0xC4, txSnr = 0x0A \<rparr>"

text \<open>Scenario A: five camera thumbnails are queued, then one emergency packet.\<close>

definition fiveBulk :: LoRaManager where
  "fiveBulk =
     foldl (\<lambda>s d. snd (sendPacket s 100 (testPacket PacketType_CAMERA_THUMB [d]) CAMERA))
           (LoRaManager_new 0) [1, 2, 3, 4, 5]"

definition scenarioA :: LoRaManager where
  "scenarioA = snd (sendPacket fiveBulk 200 (testPacket PacketType_EMERGENCY [0xEE]) EMERGENCY)"

text \<open>A manager whose STATUS level holds ten entries, with payloads 0 to 9 in that order.\<close>

definition fullStatusLevel :: LoRaManager where
  "fullStatusLevel =
     foldl (\<lambda>s d. snd (sendPacket s 100 (testPacket PacketType_STATUS [d]) STATUS))
           (LoRaManager_new 0) [0, 1, 2, 3, 4, 5, 6, 7, 8, 9]"

text \<open>The entry of an eleventh status packet, with payload 10.\<close>

definition eleventhStatus :: QueuedPacket where
  "eleventhStatus =
     \<lparr> packet = testPacket PacketType_STATUS [10],
       priority = STATUS, enqueueTime = 300, transmitAttempts = 0,
       lastTransmitTime = 0, waitingForAck = False \<rparr>"

text \<open>One telemetry packet queued on a new manager.\<close>

definition oneTelemetry :: LoRaManager where
  "oneTelemetry =
     snd (sendPacket (LoRaManager_new 0) 100 (testPacket PacketType_TELEMETRY [1, 2, 3]) TELEMETRY)"

text \<open>
  Two telemetry packets are sent, a tick transmits the first, and a third is sent.
\<close>

definition fifoCalls :: "Call list" where
  "fifoCalls =
     [SendPacket 100 (testPacket PacketType_TELEMETRY [1]) TELEMETRY,
      SendPacket 200 (testPacket PacketType_TELEMETRY [2]) TELEMETRY,
      ProcessQueue (quietEnv 300),
      SendPacket 400 (testPacket PacketType_TELEMETRY [3]) TELEMETRY]"


text \<open>
  A camera thumbnail is queued and transmitted; while it waits for its ACK an emergency
  packet is queued, and the next tick transmits that one too.
\<close>

definition bulkInFlight :: LoRaManager where
  "bulkInFlight =
     snd (processQueue
            (snd (sendPacket (LoRaManager_new 0) 100
                    (testPacket PacketType_CAMERA_THUMB [1, 2, 3]) CAMERA))
            (quietEnv 200))"

definition twoInFlight :: LoRaManager where
  "twoInFlight =
     snd (processQueue
            (snd (sendPacket bulkInFlight 300 (testPacket PacketType_EMERGENCY [0xEE]) EMERGENCY))
            (quietEnv 400))"

text \<open>A telemetry packet with sequence number 0x1234 and payload 1 2 3.\<close>

definition roundTripPacket :: Packet where
  "roundTripPacket = (testPacket PacketType_TELEMETRY [1, 2, 3])\<lparr>sequenceNumber := 0x1234\<rparr>"

text \<open>
  A STATUS packet with payload 0 0 1, and a tick in which the transceiver delivers its
  serialised frame.
\<close>

definition statusFrame :: Packet where
  "statusFrame = testPacket PacketType_STATUS [0, 0, 1]"

definition statusEnv :: Env where
  "statusEnv = \<lparr> now = 500, rxBytes = serialized statusFrame, rxRssi = 0xC4, rxSnr = 0x0A,
                  rxLocal = blankPacket, txOk = True, txRssi = 0xC4, txSnr = 0x0A \<rparr>"

text \<open>
  A frame the receive framer accepts: start bytes, type TELEMETRY, sequence number 5,
  payload length 2 (little-endian), a header checksum byte that the check over the first
  seven bytes reproduces, the padding byte, the payload 10 20, its CRC16 0x2711
  (little-endian) and the end bytes.
\<close>

definition goodFrame :: "byte list" where
  "goodFrame = [0xAA, 0x55, 0x02, 0x05, 0x02, 0x00, 0x61, 0x00, 0x10, 0x20, 0x11, 0x27, 0x0D, 0x0A]"

text \<open>An environment in which both allocations succeed and fresh memory is zero.\<close>

definition handlerEnv :: HandlerEnv where
  "handlerEnv = \<lparr> millis = 1000, assembleBlock = (\<lambda>n. Some (replicate n 0)),
                   bufferMallocOk = True \<rparr>"

text \<open>The heartbeat frame \<^verbatim>\<open>assemblePacket\<close> builds in that environment for a counter value.\<close>

definition heartbeatFrame :: "byte \<Rightarrow> byte list" where
  "heartbeatFrame seq =
     the (assemblePacket (PacketHandler_new\<lparr>currentSequenceNumber := seq\<rparr>) handlerEnv
            PacketType_HEARTBEAT [seq])"

text \<open>A new handler whose counter was set to 254, and the same after two heartbeats.\<close>

definition heartbeatAt254 :: PacketHandler where
  "heartbeatAt254 = setSequenceNumber PacketHandler_new 254"

definition twoHeartbeats :: PacketHandler where
  "twoHeartbeats =
     snd (createHeartbeatPacket (snd (createHeartbeatPacket heartbeatAt254 handlerEnv)) handlerEnv)"
section \<open>Properties\<close>

subsection \<open>Adaptive spreading factor\<close>

lemma adapt_keeps_range:
  "7 \<le> currentSpreadingFactor s \<Longrightarrow> currentSpreadingFactor s \<le> 12 \<Longrightarrow>
   7 \<le> currentSpreadingFactor (adaptTransmissionSettings s r n)
   \<and> currentSpreadingFactor (adaptTransmissionSettings s r n) \<le> 12"
  by (simp add: adaptTransmissionSettings_def setSpreadingFactor_def)

lemma adapt_strong_signal:
  "sint r > ADAPTIVE_SF_HIGH_THRESHOLD \<Longrightarrow> 7 \<le> currentSpreadingFactor s \<Longrightarrow>
   currentSpreadingFactor s \<le> 12 \<Longrightarrow>
   currentSpreadingFactor (adaptTransmissionSettings s r n) = max 7 (currentSpreadingFactor s - 1)"
  by (simp add: adaptTransmissionSettings_def setSpreadingFactor_def ENABLE_ADAPTIVE_SF_def
      ADAPTIVE_SF_HIGH_THRESHOLD_def ADAPTIVE_SF_LOW_THRESHOLD_def)

lemma adaptAll_keeps_range:
  "7 \<le> currentSpreadingFactor s \<Longrightarrow> currentSpreadingFactor s \<le> 12 \<Longrightarrow>
   7 \<le> currentSpreadingFactor (adaptAll s xs) \<and> currentSpreadingFactor (adaptAll s xs) \<le> 12"
proof (induction xs arbitrary: s)
  case Nil
  then show ?case by simp
next
  case (Cons x xs)
  from adapt_keeps_range[OF Cons.prems] Cons.IH show ?case by simp
qed

lemma adaptAll_strong_signal:
  "7 \<le> currentSpreadingFactor s \<Longrightarrow> currentSpreadingFactor s \<le> 12 \<Longrightarrow>
   \<forall>x\<in>set xs. sint (fst x) > ADAPTIVE_SF_HIGH_THRESHOLD \<Longrightarrow>
   currentSpreadingFactor (adaptAll s xs) = max 7 (currentSpreadingFactor s - int (length xs))"
proof (induction xs arbitrary: s)
  case Nil
  then show ?case by simp
next
  case (Cons x xs)
  let ?s1 = "adaptTransmissionSettings s (fst x) (snd x)"
  have r: "7 \<le> currentSpreadingFactor ?s1" "currentSpreadingFactor ?s1 \<le> 12"
    using adapt_keeps_range[OF Cons.prems(1,2)] by auto
  have h: "currentSpreadingFactor ?s1 = max 7 (currentSpreadingFactor s - 1)"
    using adapt_strong_signal Cons.prems by simp
  have "currentSpreadingFactor (adaptAll ?s1 xs)
          = max 7 (currentSpreadingFactor ?s1 - int (length xs))"
    using Cons.IH[OF r] Cons.prems(3) by simp
  then show ?case using h by (simp add: max_def)
qed

text \<open>
  Claim C8. Starting from a spreading factor in the inclusive range 7 to 12, after any number
  \<open>n\<close> of calls of \<^verbatim>\<open>adaptTransmissionSettings\<close> with arbitrary rssi and snr bytes the
  current spreading factor is still in that range; and when every one of those calls has an
  rssi above the high threshold (-80), the spreading factor after them is the start value
  minus the number of calls, stopped at the floor 7: it goes down by exactly one per call
  until it is 7 and stays there.
\<close>

theorem adaptive_sf_stays_in_range:
  assumes "7 \<le> currentSpreadingFactor s" and "currentSpreadingFactor s \<le> 12"
  shows "7 \<le> currentSpreadingFactor (adaptAll s (take n xs))
       \<and> currentSpreadingFactor (adaptAll s (take n xs)) \<le> 12
       \<and> ((\<forall>x\<in>set (take n xs). sint (fst x) > ADAPTIVE_SF_HIGH_THRESHOLD) \<longrightarrow>
            currentSpreadingFactor (adaptAll s (take n xs))
              = max 7 (currentSpreadingFactor s - int (length (take n xs))))"
  using adaptAll_keeps_range[OF assms] adaptAll_strong_signal[OF assms] by blast

theorem adaptive_sf_stays_in_range_witness:
  "currentSpreadingFactor (adaptAll ((LoRaManager_new 0)\<lparr>currentSpreadingFactor := 12\<rparr>)
      (take 10 (replicate 10 (0xC4, 0)))) = 7
   \<and> currentSpreadingFactor (adaptAll ((LoRaManager_new 0)\<lparr>currentSpreadingFactor := 12\<rparr>)
      (take 3 (replicate 10 (0xC4, 0)))) = 9"
  using adaptive_sf_stays_in_range
          [of "(LoRaManager_new 0)\<lparr>currentSpreadingFactor := 12\<rparr>" 10 "replicate 10 (0xC4, 0)"]
        adaptive_sf_stays_in_range
          [of "(LoRaManager_new 0)\<lparr>currentSpreadingFactor := 12\<rparr>" 3 "replicate 10 (0xC4, 0)"]
  by (simp add: LoRaManager_new_def ADAPTIVE_SF_HIGH_THRESHOLD_def)

subsection \<open>Strict priority selection\<close>

lemma all_priorities:
  "(\<forall>p. Q p) \<longleftrightarrow> Q EMERGENCY \<and> Q GPS \<and> Q TELEMETRY \<and> Q CAMERA \<and> Q STATUS"
  by (metis Priority.exhaust)

lemma getNextPacket_cases:
  "getNextPacket s =
     (if priorityQueues s EMERGENCY \<noteq> [] then Some (EMERGENCY, 0)
      else if priorityQueues s GPS \<noteq> [] then Some (GPS, 0)
      else if priorityQueues s TELEMETRY \<noteq> [] then Some (TELEMETRY, 0)
      else if priorityQueues s CAMERA \<noteq> [] then Some (CAMERA, 0)
      else if priorityQueues s STATUS \<noteq> [] then Some (STATUS, 0)
      else None)"
  by (simp add: getNextPacket_def priorityLevels_def)

lemma higher_priorities:
  "(\<forall>p'. priorityIndex p' < priorityIndex p \<longrightarrow> P p') \<longleftrightarrow>
     (case p of EMERGENCY \<Rightarrow> True
      | GPS \<Rightarrow> P EMERGENCY
      | TELEMETRY \<Rightarrow> P EMERGENCY \<and> P GPS
      | CAMERA \<Rightarrow> P EMERGENCY \<and> P GPS \<and> P TELEMETRY
      | STATUS \<Rightarrow> P EMERGENCY \<and> P GPS \<and> P TELEMETRY \<and> P CAMERA)"
  by (cases p) (simp_all add: all_priorities)

lemma getNextPacket_Some_iff:
  "getNextPacket s = Some (p, i) \<longleftrightarrow>
     i = 0 \<and> priorityQueues s p \<noteq> []
     \<and> (\<forall>p'. priorityIndex p' < priorityIndex p \<longrightarrow> priorityQueues s p' = [])"
  unfolding higher_priorities getNextPacket_cases
  by (cases p) auto

text \<open>Projections of the queue operations, for evaluating example states.\<close>

lemma sendPacket_queues:
  "priorityQueues (snd (sendPacket s t p prio)) =
     (priorityQueues s)(prio :=
        (if length (priorityQueues s prio) < 10
         then priorityQueues s prio
              @ [\<lparr> packet = p, priority = prio, enqueueTime = t, transmitAttempts = 0,
                    lastTransmitTime = 0, waitingForAck = False \<rparr>]
         else take 9 (tl (priorityQueues s prio))
              @ [\<lparr> packet = p, priority = prio, enqueueTime = t, transmitAttempts = 0,
                    lastTransmitTime = 0, waitingForAck = False \<rparr>]))"
  by (simp add: sendPacket_def addToQueueInternal_def MAX_QUEUE_SIZE_def)

lemma sendPacket_fields:
  "loraWritten (snd (sendPacket s t p prio)) = loraWritten s"
  "transmitErrorCount (snd (sendPacket s t p prio)) = transmitErrorCount s"
  "receiveErrorCount (snd (sendPacket s t p prio)) = receiveErrorCount s"
  "crcErrorCount (snd (sendPacket s t p prio)) = crcErrorCount s"
  "ackTimeoutCount (snd (sendPacket s t p prio)) = ackTimeoutCount s"
  by (simp_all add: sendPacket_def addToQueueInternal_def Let_def)

lemma new_fields:
  "priorityQueues (LoRaManager_new r) = (\<lambda>p. [])"
  "loraWritten (LoRaManager_new r) = []"
  "transmitErrorCount (LoRaManager_new r) = 0"
  "receiveErrorCount (LoRaManager_new r) = 0"
  "crcErrorCount (LoRaManager_new r) = 0"
  "ackTimeoutCount (LoRaManager_new r) = 0"
  by (simp_all add: LoRaManager_new_def)

lemma testPacket_fields:
  "payload (testPacket ty pl) = pl"
  "ptype (testPacket ty pl) = ty"
  "sequenceNumber (testPacket ty pl) = 0"
  "length (header (testPacket ty pl)) = 12"
  by (simp_all add: testPacket_def createPacket_def Let_def)

lemma fiveBulk_queues:
  "priorityQueues fiveBulk =
     (\<lambda>p. [])(CAMERA := map (\<lambda>d. \<lparr> packet = testPacket PacketType_CAMERA_THUMB [d],
                 priority = CAMERA, enqueueTime = 100, transmitAttempts = 0,
                 lastTransmitTime = 0, waitingForAck = False \<rparr>) [1, 2, 3, 4, 5])"
  by (simp add: fiveBulk_def sendPacket_queues new_fields)

subsection \<open>Queue overflow\<close>

text \<open>
  Claim C7, as the code has it. An enqueue into a level that already holds
  \<^verbatim>\<open>MAX_QUEUE_SIZE\<close> entries drops the oldest entry of that level and puts the new entry at
  the tail; every other level is unchanged; and nothing else in the manager changes: none of
  the four counters moves, the overflow is only written to the debug log.
\<close>

theorem addToQueueInternal_full_level:
  assumes "length (priorityQueues s (priority qp)) = MAX_QUEUE_SIZE"
  shows "addToQueueInternal s qp =
           s\<lparr>priorityQueues := (priorityQueues s)
                (priority qp := tl (priorityQueues s (priority qp)) @ [qp])\<rparr>
       \<and> priorityQueues (addToQueueInternal s qp) (priority qp)
           = tl (priorityQueues s (priority qp)) @ [qp]
       \<and> (\<forall>p. p \<noteq> priority qp \<longrightarrow>
             priorityQueues (addToQueueInternal s qp) p = priorityQueues s p)
       \<and> transmitErrorCount (addToQueueInternal s qp) = transmitErrorCount s
       \<and> receiveErrorCount (addToQueueInternal s qp) = receiveErrorCount s
       \<and> crcErrorCount (addToQueueInternal s qp) = crcErrorCount s
       \<and> ackTimeoutCount (addToQueueInternal s qp) = ackTimeoutCount s"
  using assms by (simp add: addToQueueInternal_def MAX_QUEUE_SIZE_def)

lemma fullStatusLevel_queues:
  "priorityQueues fullStatusLevel =
     (\<lambda>p. [])(STATUS := map (\<lambda>d. \<lparr> packet = testPacket PacketType_STATUS [d],
                 priority = STATUS, enqueueTime = 100, transmitAttempts = 0,
                 lastTransmitTime = 0, waitingForAck = False \<rparr>) [0, 1, 2, 3, 4, 5, 6, 7, 8, 9])"
  by (simp add: fullStatusLevel_def sendPacket_queues new_fields)

theorem addToQueueInternal_full_level_witness:
  "map (\<lambda>q. payload (packet q))
       (priorityQueues (addToQueueInternal fullStatusLevel eleventhStatus) STATUS)
     = [[1], [2], [3], [4], [5], [6], [7], [8], [9], [10]]
   \<and> priorityQueues (addToQueueInternal fullStatusLevel eleventhStatus) CAMERA = []"
  using addToQueueInternal_full_level[of fullStatusLevel eleventhStatus]
  by (simp add: fullStatusLevel_queues MAX_QUEUE_SIZE_def eleventhStatus_def testPacket_fields)

text \<open>
  The claim as stated asks for a counted overflow event. In the full STATUS level of the
  example, the eleventh enqueue leaves all four counters of the manager as they were.
\<close>

theorem overflow_leaves_counters:
  "length (priorityQueues fullStatusLevel (priority eleventhStatus)) = MAX_QUEUE_SIZE
   \<and> transmitErrorCount (addToQueueInternal fullStatusLevel eleventhStatus)
       = transmitErrorCount fullStatusLevel
   \<and> receiveErrorCount (addToQueueInternal fullStatusLevel eleventhStatus)
       = receiveErrorCount fullStatusLevel
   \<and> crcErrorCount (addToQueueInternal fullStatusLevel eleventhStatus)
       = crcErrorCount fullStatusLevel
   \<and> ackTimeoutCount (addToQueueInternal fullStatusLevel eleventhStatus)
       = ackTimeoutCount fullStatusLevel"
  by (simp add: fullStatusLevel_queues MAX_QUEUE_SIZE_def eleventhStatus_def
      addToQueueInternal_def)

subsection \<open>One tick\<close>

lemma processIncomingPacket_nothing:
  "rxBytes env = [] \<Longrightarrow> processIncomingPacket s env = s"
  by (simp add: processIncomingPacket_def receivePacket_def)

lemma getNextPacket_same_emptiness:
  "(\<And>p. (priorityQueues s' p = []) = (priorityQueues s p = [])) \<Longrightarrow>
   getNextPacket s' = getNextPacket s"
  by (simp add: getNextPacket_cases)


lemma receivePacket_fields:
  "loraWritten (snd (snd (receivePacket s env p))) = loraWritten s"
  "transmitErrorCount (snd (snd (receivePacket s env p))) = transmitErrorCount s"
  "priorityQueues (snd (snd (receivePacket s env p))) = priorityQueues s"
  by (simp_all add: receivePacket_def updateSignalQuality_def Let_def split: option.splits)


lemma gtick_transmit:
  assumes "getNextPacket (processIncomingPacket s env) = Some (lvl, 0)"
    and "priorityQueues (processIncomingPacket s env) lvl = e # rest"
    and "txOk env"
    and "waitingForAck e \<longrightarrow> now env - lastTransmitTime e > ACK_TIMEOUT_MS"
    and "unat (transmitAttempts e) < MAX_RETRIES"
    and "serializePacket (packet e) = Some frame"
  shows "fst (processQueue s env)"
    and "priorityQueues (snd (processQueue s env)) =
           (priorityQueues (processIncomingPacket s env))
              (lvl := e\<lparr>transmitAttempts := transmitAttempts e + 1,
                        lastTransmitTime := now env,
                        waitingForAck := True\<rparr> # rest)"
    and "loraWritten (snd (processQueue s env))
           = loraWritten (processIncomingPacket s env) @ [(frame, True)]"
    and "transmitErrorCount (snd (processQueue s env))
           = transmitErrorCount (processIncomingPacket s env)"
    and "ackTimeoutCount (snd (processQueue s env)) =
           (if waitingForAck e then ackTimeoutCount (processIncomingPacket s env) + 1
            else ackTimeoutCount (processIncomingPacket s env))"
  using assms
  by (auto simp add: processQueue_def transmitPacket_def updateSignalQuality_def Let_def)


lemma gtick_fail:
  assumes "getNextPacket (processIncomingPacket s env) = Some (lvl, 0)"
    and "priorityQueues (processIncomingPacket s env) lvl = e # rest"
    and "\<not> txOk env"
    and "waitingForAck e \<longrightarrow> now env - lastTransmitTime e > ACK_TIMEOUT_MS"
    and "unat (transmitAttempts e) < MAX_RETRIES"
    and "serializePacket (packet e) = Some frame"
  shows "\<not> fst (processQueue s env)"
    and "priorityQueues (snd (processQueue s env)) =
           (priorityQueues (processIncomingPacket s env))
              (lvl := e\<lparr>waitingForAck := False\<rparr> # rest)"
    and "loraWritten (snd (processQueue s env))
           = loraWritten (processIncomingPacket s env) @ [(frame, False)]"
    and "transmitErrorCount (snd (processQueue s env))
           = transmitErrorCount (processIncomingPacket s env) + 1"
  using assms
  by (auto simp add: processQueue_def transmitPacket_def updateSignalQuality_def Let_def)


lemma gtick_fail_ackTimeout:
  assumes "getNextPacket (processIncomingPacket s env) = Some (lvl, 0)"
    and "priorityQueues (processIncomingPacket s env) lvl = e # rest"
    and "\<not> txOk env"
    and "waitingForAck e \<longrightarrow> now env - lastTransmitTime e > ACK_TIMEOUT_MS"
    and "unat (transmitAttempts e) < MAX_RETRIES"
    and "serializePacket (packet e) = Some frame"
  shows "ackTimeoutCount (snd (processQueue s env)) =
           (if waitingForAck e then ackTimeoutCount (processIncomingPacket s env) + 1
            else ackTimeoutCount (processIncomingPacket s env))"
  using assms
  by (auto simp add: processQueue_def transmitPacket_def updateSignalQuality_def Let_def)



lemma tick_transmit:
  assumes "getNextPacket s = Some (lvl, 0)" and "priorityQueues s lvl = e # rest"
    and "rxBytes env = []" and "txOk env"
    and "waitingForAck e \<longrightarrow> now env - lastTransmitTime e > ACK_TIMEOUT_MS"
    and "unat (transmitAttempts e) < MAX_RETRIES"
    and "serializePacket (packet e) = Some frame"
  shows "fst (processQueue s env)"
    and "priorityQueues (snd (processQueue s env)) =
           (priorityQueues s)(lvl := e\<lparr>transmitAttempts := transmitAttempts e + 1,
                                      lastTransmitTime := now env,
                                      waitingForAck := True\<rparr> # rest)"
    and "loraWritten (snd (processQueue s env)) = loraWritten s @ [(frame, True)]"
    and "transmitErrorCount (snd (processQueue s env)) = transmitErrorCount s"
    and "ackTimeoutCount (snd (processQueue s env)) =
           (if waitingForAck e then ackTimeoutCount s + 1 else ackTimeoutCount s)"
  using assms gtick_transmit[of s env lvl e rest frame]
  by (simp_all add: processIncomingPacket_nothing)


lemma tick_fail:
  assumes "getNextPacket s = Some (lvl, 0)" and "priorityQueues s lvl = e # rest"
    and "rxBytes env = []" and "\<not> txOk env"
    and "waitingForAck e \<longrightarrow> now env - lastTransmitTime e > ACK_TIMEOUT_MS"
    and "unat (transmitAttempts e) < MAX_RETRIES"
    and "serializePacket (packet e) = Some frame"
  shows "\<not> fst (processQueue s env)"
    and "priorityQueues (snd (processQueue s env)) =
           (priorityQueues s)(lvl := e\<lparr>waitingForAck := False\<rparr> # rest)"
    and "loraWritten (snd (processQueue s env)) = loraWritten s @ [(frame, False)]"
    and "transmitErrorCount (snd (processQueue s env)) = transmitErrorCount s + 1"
  using assms gtick_fail[of s env lvl e rest frame]
  by (simp_all add: processIncomingPacket_nothing)

lemma serializePacket_fits:
  "length (payload p) \<le> 227 \<Longrightarrow>
   serializePacket p = Some (packetImage p
      @ [ucast (drop_bit 8 (calculatePacketCRC p) AND 0xFF), ucast (calculatePacketCRC p AND 0xFF)])"
  by (simp add: serializePacket_def sizeof_PacketHeader_def MAX_PACKET_SIZE_def Let_def)

lemma serializePacket_serialized:
  "length (payload p) \<le> 227 \<Longrightarrow> serializePacket p = Some (serialized p)"
  by (simp add: serializePacket_fits serialized_def)

lemma serializePacket_testPacket:
  "length pl \<le> 227 \<Longrightarrow> serializePacket (testPacket ty pl) = Some (serialized (testPacket ty pl))"
  by (simp add: serializePacket_serialized testPacket_fields)

lemma quietEnv_fields:
  "rxBytes (quietEnv t) = []" "txOk (quietEnv t)" "now (quietEnv t) = t"
  "quietTick (quietEnv t)"
  by (simp_all add: quietEnv_def quietTick_def)

lemma failingEnv_fields:
  "rxBytes (failingEnv t) = []" "\<not> txOk (failingEnv t)" "now (failingEnv t) = t"
  by (simp_all add: failingEnv_def)

lemma oneTelemetry_fields:
  "priorityQueues oneTelemetry =
     (\<lambda>p. [])(TELEMETRY := [\<lparr> packet = testPacket PacketType_TELEMETRY [1, 2, 3],
        priority = TELEMETRY, enqueueTime = 100, transmitAttempts = 0,
        lastTransmitTime = 0, waitingForAck = False \<rparr>])"
  "loraWritten oneTelemetry = []"
  "transmitErrorCount oneTelemetry = 0"
  "getNextPacket oneTelemetry = Some (TELEMETRY, 0)"
  by (simp_all add: oneTelemetry_def sendPacket_queues sendPacket_fields new_fields
      getNextPacket_cases)

subsection \<open>Runs of ticks in which nothing is received\<close>







subsection \<open>Failed transmissions\<close>

lemma ticks_failing:
  assumes "getNextPacket s = Some (lvl, 0)" and "priorityQueues s lvl = e # rest"
    and "\<not> waitingForAck e" and "unat (transmitAttempts e) < MAX_RETRIES"
    and "serializePacket (packet e) = Some frame"
    and "\<forall>env\<in>set envs. rxBytes env = [] \<and> \<not> txOk env"
  shows "priorityQueues (processQueueTicks s envs) = priorityQueues s
       \<and> loraWritten (processQueueTicks s envs) = loraWritten s @ replicate (length envs) (frame, False)
       \<and> transmitErrorCount (processQueueTicks s envs) = transmitErrorCount s + of_nat (length envs)"
  using assms
proof (induction envs arbitrary: s)
  case Nil then show ?case by simp
next
  case (Cons env envs)
  let ?s1 = "snd (processQueue s env)"
  have q: "rxBytes env = []" "\<not> txOk env" using Cons.prems(6) by simp_all
  have g: "waitingForAck e \<longrightarrow> now env - lastTransmitTime e > ACK_TIMEOUT_MS" using Cons.prems(3) by simp
  note t = tick_fail[OF Cons.prems(1,2) q g Cons.prems(4,5)]
  have e: "e\<lparr>waitingForAck := False\<rparr> = e" using Cons.prems(3) by simp
  have q1: "priorityQueues ?s1 = priorityQueues s" using t(2) Cons.prems(2) e by auto
  have n1: "getNextPacket ?s1 = Some (lvl, 0)"
    using getNextPacket_same_emptiness[of ?s1 s] q1 Cons.prems(1) by simp
  have q1': "priorityQueues ?s1 lvl = e # rest" using q1 Cons.prems(2) by simp
  have r: "\<forall>env\<in>set envs. rxBytes env = [] \<and> \<not> txOk env" using Cons.prems(6) by simp
  note IH = Cons.IH[OF n1 q1' Cons.prems(3,4,5) r]
  show ?case using IH q1 t(3,4) by (simp add: replicate_app_Cons_same)
qed

subsection \<open>Entries waiting for an ACK\<close>

lemma in_set_tl: "x \<in> set (tl xs) \<Longrightarrow> x \<in> set xs"
  by (cases xs) auto

lemma woh_tl: "waitingOnlyAtHead q \<Longrightarrow> waitingOnlyAtHead (tl q)"
  by (auto simp: waitingOnlyAtHead_def dest: in_set_tl)

lemma woh_remove: "waitingOnlyAtHead q \<Longrightarrow> waitingOnlyAtHead (take i q @ drop (Suc i) q)"
proof (cases q)
  case Nil then show ?thesis by (simp add: waitingOnlyAtHead_def)
next
  case (Cons a as)
  assume w: "waitingOnlyAtHead q"
  show ?thesis
  proof (cases i)
    case 0
    then show ?thesis using woh_tl[OF w] Cons by simp
  next
    case (Suc j)
    have "set (take j as @ drop (Suc j) as) \<subseteq> set as"
      by (auto dest: in_set_takeD in_set_dropD)
    then show ?thesis using w Cons Suc by (auto simp: waitingOnlyAtHead_def)
  qed
qed

lemma woh_butlast: "waitingOnlyAtHead q \<Longrightarrow> waitingOnlyAtHead (butlast q)"
  by (cases q) (auto simp: waitingOnlyAtHead_def dest: in_set_butlastD)

lemma woh_update_head: "waitingOnlyAtHead q \<Longrightarrow> waitingOnlyAtHead (list_update q 0 y)"
  by (cases q) (auto simp: waitingOnlyAtHead_def)

lemma woh_clear: "waitingOnlyAtHead q \<Longrightarrow>
  waitingOnlyAtHead (list_update q i ((q ! i)\<lparr>waitingForAck := False\<rparr>))"
proof (cases q)
  case Nil then show ?thesis by (simp add: waitingOnlyAtHead_def)
next
  case (Cons a as)
  assume w: "waitingOnlyAtHead q"
  show ?thesis
  proof (cases i)
    case 0 then show ?thesis using w Cons by (simp add: waitingOnlyAtHead_def)
  next
    case (Suc j)
    then show ?thesis using w Cons
      by (auto simp: waitingOnlyAtHead_def dest!: set_update_subset_insert[THEN subsetD])
  qed
qed

lemma woh_append: "waitingOnlyAtHead q \<Longrightarrow> \<not> waitingForAck x \<Longrightarrow> waitingOnlyAtHead (q @ [x])"
  by (cases q) (auto simp: waitingOnlyAtHead_def)

lemma woh_evict: "waitingOnlyAtHead q \<Longrightarrow> \<not> waitingForAck x \<Longrightarrow>
  waitingOnlyAtHead (take n (tl q) @ [x])"
proof -
  assume w: "waitingOnlyAtHead q" and x: "\<not> waitingForAck x"
  have "\<forall>y\<in>set (take n (tl q) @ [x]). \<not> waitingForAck y"
    using w x by (auto simp: waitingOnlyAtHead_def dest: in_set_takeD)
  then show ?thesis
    unfolding waitingOnlyAtHead_def by (metis list.set_sel(2) tl_Nil)
qed

lemma sfl_sendPacket: "singleFlightPerLevel s \<Longrightarrow> singleFlightPerLevel (snd (sendPacket s t p prio))"
  by (auto simp: singleFlightPerLevel_def sendPacket_def addToQueueInternal_def Let_def
      intro: woh_append woh_evict)

lemma sfl_remove: "singleFlightPerLevel s \<Longrightarrow> singleFlightPerLevel (removePacketFromQueue s prio i)"
  by (auto simp: singleFlightPerLevel_def removePacketFromQueue_def Let_def
      intro: woh_remove woh_butlast)

lemma adapt_queues: "priorityQueues (adaptTransmissionSettings s r n) = priorityQueues s"
  by (simp add: adaptTransmissionSettings_def setSpreadingFactor_def)

lemma sfl_handleAck: "singleFlightPerLevel s \<Longrightarrow> singleFlightPerLevel (handleAck s ack)"
proof -
  assume a: "singleFlightPerLevel s"
  have "\<And>prio i. singleFlightPerLevel (adaptTransmissionSettings (removePacketFromQueue s prio i) r n)" for r n
    using sfl_remove[OF a] by (simp add: singleFlightPerLevel_def adapt_queues)
  then show ?thesis using a
    by (auto simp: handleAck_def Let_def split: option.splits)
qed

lemma sfl_handleNack: "singleFlightPerLevel s \<Longrightarrow> singleFlightPerLevel (handleNack s nack)"
  by (auto simp: handleNack_def Let_def singleFlightPerLevel_def intro: woh_clear split: option.splits)

lemma receivePacket_queues:
  "priorityQueues (snd (snd (receivePacket s env p))) = priorityQueues s"
  by (simp add: receivePacket_def updateSignalQuality_def Let_def split: option.splits)

lemma sfl_incoming: "singleFlightPerLevel s \<Longrightarrow> singleFlightPerLevel (processIncomingPacket s env)"
proof -
  assume a: "singleFlightPerLevel s"
  obtain ok p s1 where r: "receivePacket s env (rxLocal env) = (ok, p, s1)"
    by (metis prod_cases3)
  have "priorityQueues s1 = priorityQueues s"
    using receivePacket_queues[of s env "rxLocal env"] r by simp
  then have s1: "singleFlightPerLevel s1" using a by (simp add: singleFlightPerLevel_def)
  show ?thesis using r s1
    by (cases ok) (simp_all add: processIncomingPacket_def sfl_handleAck sfl_handleNack)
qed

lemma transmitPacket_queues: "priorityQueues (snd (transmitPacket s env p)) = priorityQueues s"
  by (simp add: transmitPacket_def updateSignalQuality_def Let_def split: option.splits)

lemma sfl_same_queues:
  "priorityQueues s' = priorityQueues s \<Longrightarrow> singleFlightPerLevel s \<Longrightarrow> singleFlightPerLevel s'"
  by (simp add: singleFlightPerLevel_def)

lemma sfl_set_head:
  "singleFlightPerLevel s \<Longrightarrow>
   singleFlightPerLevel (s\<lparr>priorityQueues :=
      (priorityQueues s)(lvl := list_update (priorityQueues s lvl) 0 y)\<rparr>)"
  by (auto simp: singleFlightPerLevel_def intro: woh_update_head)

lemma sfl_processQueue: "singleFlightPerLevel s \<Longrightarrow> singleFlightPerLevel (snd (processQueue s env))"
proof -
  assume a: "singleFlightPerLevel s"
  define s1 where "s1 = processIncomingPacket s env"
  have s1: "singleFlightPerLevel s1" unfolding s1_def by (rule sfl_incoming[OF a])
  show ?thesis
  proof (cases "getNextPacket s1")
    case None
    then show ?thesis using s1 by (simp add: processQueue_def s1_def)
  next
    case (Some ptr)
    obtain lvl idx where ptr: "ptr = (lvl, idx)" by (cases ptr)
    have idx: "idx = 0"
      using Some ptr by (simp add: getNextPacket_cases split: if_splits)
    define e where "e = priorityQueues s1 lvl ! 0"
    show ?thesis
    proof (cases "waitingForAck e \<and> \<not> now env - lastTransmitTime e > ACK_TIMEOUT_MS")
      case True
      then have "snd (processQueue s env) = s1"
        using Some ptr idx by (simp add: processQueue_def s1_def[symmetric] e_def[symmetric])
      then show ?thesis using s1 by simp
    next
      case False
      define e2 where "e2 = (if waitingForAck e then e\<lparr>waitingForAck := False\<rparr> else e)"
      define s2 where "s2 = (if waitingForAck e
          then s1\<lparr>ackTimeoutCount := ackTimeoutCount s1 + 1,
                  priorityQueues := (priorityQueues s1)
                    (lvl := list_update (priorityQueues s1 lvl) 0 (e\<lparr>waitingForAck := False\<rparr>))\<rparr>
          else s1)"
      have s2: "singleFlightPerLevel s2"
        using sfl_set_head[OF s1, of lvl "e\<lparr>waitingForAck := False\<rparr>"] s1
        by (simp add: s2_def singleFlightPerLevel_def)
      have ta: "transmitAttempts e2 = transmitAttempts e" by (simp add: e2_def)
      show ?thesis
      proof (cases "unat (transmitAttempts e) \<ge> MAX_RETRIES")
        case True
        have "snd (processQueue s env) =
            (removePacketFromQueue s2 (priority e2) 0)
              \<lparr>transmitErrorCount := transmitErrorCount (removePacketFromQueue s2 (priority e2) 0) + 1\<rparr>"
          using Some ptr idx False True
          by (auto simp add: processQueue_def s1_def[symmetric] e_def[symmetric] e2_def s2_def Let_def
                split: if_splits)
        then show ?thesis using sfl_remove[OF s2, of "priority e2" 0]
          by (simp add: singleFlightPerLevel_def)
      next
        case notmax: False
        obtain ok s3 where tx: "transmitPacket s2 env (packet e2) = (ok, s3)"
          by (cases "transmitPacket s2 env (packet e2)")
        have q3: "priorityQueues s3 = priorityQueues s2"
          using transmitPacket_queues[of s2 env "packet e2"] tx by simp
        have s3: "singleFlightPerLevel s3" using sfl_same_queues[OF q3 s2] .
        show ?thesis
        proof (cases ok)
          case True
          have "snd (processQueue s env) =
              s3\<lparr>transmitStartTime := now env, transmitting := True,
                 priorityQueues := (priorityQueues s3)
                   (lvl := list_update (priorityQueues s3 lvl) 0
                      (e2\<lparr>transmitAttempts := transmitAttempts e2 + 1,
                          lastTransmitTime := now env, waitingForAck := True\<rparr>))\<rparr>"
            using Some ptr idx False notmax tx True
            by (auto simp add: processQueue_def s1_def[symmetric] e_def[symmetric] e2_def s2_def Let_def
                split: if_splits)
          then show ?thesis
            using sfl_set_head[OF s3, of lvl] by (simp add: singleFlightPerLevel_def)
        next
          case nok: False
          have "snd (processQueue s env) = s3\<lparr>transmitErrorCount := transmitErrorCount s3 + 1\<rparr>"
            using Some ptr idx False notmax tx nok
            by (auto simp add: processQueue_def s1_def[symmetric] e_def[symmetric] e2_def s2_def Let_def
                split: if_splits)
          then show ?thesis using s3 by (simp add: singleFlightPerLevel_def)
        qed
      qed
    qed
  qed
qed

lemma sfl_new: "singleFlightPerLevel (LoRaManager_new rnd)"
  by (simp add: singleFlightPerLevel_def LoRaManager_new_def waitingOnlyAtHead_def)

lemma reachable_sfl: "reachable s \<Longrightarrow> singleFlightPerLevel s"
  by (induction rule: reachable.induct)
     (simp_all add: sfl_new sfl_sendPacket sfl_processQueue sfl_handleAck sfl_handleNack)

lemma woh_filter: "waitingOnlyAtHead q \<Longrightarrow> length (filter waitingForAck q) \<le> 1"
  by (cases q) (auto simp: waitingOnlyAtHead_def filter_empty_conv)


text \<open>
  Claim C1, as the code has it. In every state reachable from the constructor by
  \<^verbatim>\<open>sendPacket\<close>, \<^verbatim>\<open>processQueue\<close>, \<^verbatim>\<open>handleAck\<close> and \<^verbatim>\<open>handleNack\<close>, each priority
  level holds at most one entry with \<^verbatim>\<open>waitingForAck == true\<close>, and such an entry is
  the head (index 0) of its level.
\<close>

theorem waiting_only_at_level_heads:
  assumes "reachable s"
  shows "length (filter waitingForAck (priorityQueues s p)) \<le> 1
       \<and> (\<forall>i < length (priorityQueues s p). waitingForAck (priorityQueues s p ! i) \<longrightarrow> i = 0)"
proof -
  have w: "waitingOnlyAtHead (priorityQueues s p)"
    using reachable_sfl[OF assms] by (simp add: singleFlightPerLevel_def)
  have "\<forall>i < length (priorityQueues s p). waitingForAck (priorityQueues s p ! i) \<longrightarrow> i = 0"
  proof (intro allI impI)
    fix i assume i: "i < length (priorityQueues s p)" and wi: "waitingForAck (priorityQueues s p ! i)"
    show "i = 0"
    proof (rule ccontr)
      assume "i \<noteq> 0"
      then obtain j where j: "i = Suc j" by (cases i) auto
      then have "priorityQueues s p ! i \<in> set (tl (priorityQueues s p))"
        using i by (cases "priorityQueues s p") auto
      then show False using w wi by (simp add: waitingOnlyAtHead_def)
    qed
  qed
  then show ?thesis using woh_filter[OF w] by blast
qed

lemma bulkInFlight_fields:
  "priorityQueues bulkInFlight =
     (\<lambda>p. [])(CAMERA := [\<lparr> packet = testPacket PacketType_CAMERA_THUMB [1, 2, 3],
        priority = CAMERA, enqueueTime = 100, transmitAttempts = 1,
        lastTransmitTime = 200, waitingForAck = True \<rparr>])"
  unfolding bulkInFlight_def
  using tick_transmit(2)[of "snd (sendPacket (LoRaManager_new 0) 100
            (testPacket PacketType_CAMERA_THUMB [1, 2, 3]) CAMERA)" CAMERA
      "\<lparr> packet = testPacket PacketType_CAMERA_THUMB [1, 2, 3],
         priority = CAMERA, enqueueTime = 100, transmitAttempts = 0,
         lastTransmitTime = 0, waitingForAck = False \<rparr>" "[]" "quietEnv 200"
      "serialized (testPacket PacketType_CAMERA_THUMB [1, 2, 3])"]
  by (simp add: sendPacket_queues new_fields getNextPacket_cases quietEnv_fields
      serializePacket_testPacket MAX_RETRIES_def)

lemma twoInFlight_fields:
  "priorityQueues twoInFlight =
     (\<lambda>p. [])(CAMERA := [\<lparr> packet = testPacket PacketType_CAMERA_THUMB [1, 2, 3],
        priority = CAMERA, enqueueTime = 100, transmitAttempts = 1,
        lastTransmitTime = 200, waitingForAck = True \<rparr>],
      EMERGENCY := [\<lparr> packet = testPacket PacketType_EMERGENCY [0xEE],
        priority = EMERGENCY, enqueueTime = 300, transmitAttempts = 1,
        lastTransmitTime = 400, waitingForAck = True \<rparr>])"
  unfolding twoInFlight_def
  using tick_transmit(2)[of "snd (sendPacket bulkInFlight 300
            (testPacket PacketType_EMERGENCY [0xEE]) EMERGENCY)" EMERGENCY
      "\<lparr> packet = testPacket PacketType_EMERGENCY [0xEE],
         priority = EMERGENCY, enqueueTime = 300, transmitAttempts = 0,
         lastTransmitTime = 0, waitingForAck = False \<rparr>" "[]" "quietEnv 400"
      "serialized (testPacket PacketType_EMERGENCY [0xEE])"]
  by (simp add: sendPacket_queues bulkInFlight_fields getNextPacket_cases quietEnv_fields
      serializePacket_testPacket MAX_RETRIES_def)

lemma twoInFlight_reachable: "reachable twoInFlight"
  unfolding twoInFlight_def bulkInFlight_def by (intro reachable.intros)

theorem waiting_only_at_level_heads_witness:
  "reachable twoInFlight
   \<and> length (filter waitingForAck (priorityQueues twoInFlight CAMERA)) \<le> 1
   \<and> length (filter waitingForAck (priorityQueues twoInFlight EMERGENCY)) \<le> 1"
  using waiting_only_at_level_heads[OF twoInFlight_reachable, of CAMERA]
        waiting_only_at_level_heads[OF twoInFlight_reachable, of EMERGENCY]
        twoInFlight_reachable
  by simp

text \<open>
  The claim as stated allows one waiting entry over all five levels. The example state is
  reachable, and both the emergency entry and the camera entry wait for an ACK in it.
\<close>

theorem two_entries_waiting:
  "reachable twoInFlight
   \<and> waitingForAck (priorityQueues twoInFlight EMERGENCY ! 0)
   \<and> waitingForAck (priorityQueues twoInFlight CAMERA ! 0)
   \<and> waitingCount twoInFlight = 2"
  using twoInFlight_reachable
  by (simp add: twoInFlight_fields waitingCount_def priorityLevels_def)

subsection \<open>Serialising and deserialising\<close>

lemma be16_roundtrip:
  "push_bit 8 (ucast (ucast (drop_bit 8 w AND 0xFF) :: byte)) OR ucast (ucast (w AND 0xFF) :: byte) = w"
  for w :: "16 word"
proof -
  have m: "(0xFF :: 16 word) = mask 8" by (simp add: mask_eq_exp_minus_1)
  show ?thesis
    unfolding m by (rule bit_word_eqI) (auto simp add: bit_simps)
qed

lemma packetImage_length:
  "length (header p) \<ge> 8 \<Longrightarrow> length (packetImage p) = 11 + length (payload p)"
  by (simp add: packetImage_def sizeof_PacketHeader_def)

lemma serialized_eq:
  "length (payload p) \<le> 227 \<Longrightarrow>
   serialized p = packetImage p
      @ [ucast (drop_bit 8 (calculatePacketCRC p) AND 0xFF), ucast (calculatePacketCRC p AND 0xFF)]"
  by (simp add: serialized_def serializePacket_fits)

lemma deserialize_serialized:
  assumes "length (header p) \<ge> 8" and "length (payload p) \<le> 227"
  shows "deserializePacket (serialized p) p0 =
     Some (p0\<lparr>header := take 8 (header p) @ drop 8 (header p0),
              ptype := ptype p,
              sequenceNumber := sequenceNumber p,
              payload := payload p,
              crc16 := calculatePacketCRC p,
              rssi := - 128, snr := - 128, valid := False\<rparr>)"
proof -
  let ?h = "take 8 (header p)"
  let ?c = "calculatePacketCRC p"
  let ?s = "sequenceNumber p"
  have lh: "length ?h = 8" using assms(1) by simp
  have buf: "serialized p = ?h @ [ptype p, ucast (drop_bit 8 ?s AND 0xFF), ucast (?s AND 0xFF)]
       @ payload p @ [ucast (drop_bit 8 ?c AND 0xFF), ucast (?c AND 0xFF)]"
    using assms(2) by (simp add: serialized_eq packetImage_def sizeof_PacketHeader_def)
  have len: "length (serialized p) = 13 + length (payload p)" using lh by (simp add: buf)
  have n8: "serialized p ! 8 = ptype p" using lh by (simp add: buf nth_append)
  have n9: "serialized p ! 9 = ucast (drop_bit 8 ?s AND 0xFF)" using lh by (simp add: buf nth_append)
  have n10: "serialized p ! 10 = ucast (?s AND 0xFF)" using lh by (simp add: buf nth_append)
  have nc1: "serialized p ! (11 + length (payload p)) = ucast (drop_bit 8 ?c AND 0xFF)"
    using lh by (simp add: buf nth_append)
  have nc2: "serialized p ! (12 + length (payload p)) = ucast (?c AND 0xFF)"
    using lh by (simp add: buf nth_append)
  have tk: "take 8 (serialized p) = ?h" using lh by (simp add: buf)
  have pl: "take (length (payload p)) (drop 11 (serialized p)) = payload p"
    using lh by (simp add: buf)
  show ?thesis
    unfolding deserializePacket_def Let_def
    by (simp add: sizeof_PacketHeader_def len n8 n9 n10 nc1 nc2 tk pl be16_roundtrip)
qed

lemma validate_deserialized:
  assumes "length (header p) \<ge> 8"
  shows "validatePacket (p0\<lparr>header := take 8 (header p) @ drop 8 (header p0),
              ptype := ptype p,
              sequenceNumber := sequenceNumber p,
              payload := payload p,
              crc16 := calculatePacketCRC p,
              rssi := r, snr := n, valid := v\<rparr>)"
  using assms
  by (simp add: validatePacket_def LoRaManager_calculateCRC16_def calculatePacketCRC_def
      packetImage_def sizeof_PacketHeader_def)

lemma receivePacket_serialized:
  assumes "length (header p) \<ge> 8" and "length (payload p) \<le> 227"
    and "rxBytes env = serialized p"
  shows "receivePacket s env p0 =
     (True,
      p0\<lparr>header := take 8 (header p) @ drop 8 (header p0),
              ptype := ptype p,
              sequenceNumber := sequenceNumber p,
              payload := payload p,
              crc16 := calculatePacketCRC p,
              rssi := rxRssi env, snr := rxSnr env, valid := True\<rparr>,
      (updateSignalQuality s (rxRssi env) (rxSnr env))\<lparr>lastReceiveTime := now env\<rparr>)"
proof -
  have len: "length (serialized p) = 13 + length (payload p)"
    using assms(1,2) by (simp add: serialized_eq packetImage_length)
  have tk: "take MAX_PACKET_SIZE (serialized p) = serialized p"
    using len assms(2) by (simp add: MAX_PACKET_SIZE_def)
  show ?thesis
    unfolding receivePacket_def Let_def
    using len
    by (simp add: assms(3) tk deserialize_serialized[OF assms(1,2)]
        validate_deserialized[OF assms(1)] updateSignalQuality_def)
qed

text \<open>
  Claim C2, as the code has it. For every packet with a 12-byte header object, any type
  byte, any 16-bit sequence number and a payload that fits the frame
  (\<^verbatim>\<open>sizeof(PacketHeader) + 3 + payloadLength + 2 <= MAX_PACKET_SIZE\<close>, that is at most 227
  bytes), \<^verbatim>\<open>serializePacket\<close> succeeds, and \<^verbatim>\<open>deserializePacket\<close> of its buffer succeeds
  and yields a packet with the same type, sequence number and payload whose
  \<^verbatim>\<open>valid\<close> flag is false; that packet passes \<^verbatim>\<open>validatePacket\<close>, and
  \<^verbatim>\<open>receivePacket\<close>, given the buffer by the transceiver, returns true with the same
  packet, its \<^verbatim>\<open>valid\<close> flag now true and its signal readings filled in.
\<close>

theorem serialize_deserialize_roundtrip:
  assumes "length (header p) = sizeof_LoRaPacketHeader"
    and "length (payload p) + 13 \<le> MAX_PACKET_SIZE"
  shows "\<exists>buffer q. serializePacket p = Some buffer
           \<and> deserializePacket buffer p0 = Some q
           \<and> ptype q = ptype p
           \<and> sequenceNumber q = sequenceNumber p
           \<and> payload q = payload p
           \<and> \<not> valid q
           \<and> validatePacket q
           \<and> receivePacket s (env\<lparr>rxBytes := buffer\<rparr>) p0 =
               (True, q\<lparr>rssi := rxRssi env, snr := rxSnr env, valid := True\<rparr>,
                (updateSignalQuality s (rxRssi env) (rxSnr env))\<lparr>lastReceiveTime := now env\<rparr>)"
proof -
  have h: "length (header p) \<ge> 8" using assms(1) by (simp add: sizeof_LoRaPacketHeader_def)
  have l: "length (payload p) \<le> 227" using assms(2) by (simp add: MAX_PACKET_SIZE_def)
  let ?q = "p0\<lparr>header := take 8 (header p) @ drop 8 (header p0),
              ptype := ptype p,
              sequenceNumber := sequenceNumber p,
              payload := payload p,
              crc16 := calculatePacketCRC p,
              rssi := - 128, snr := - 128, valid := False\<rparr>"
  have 1: "serializePacket p = Some (serialized p)" by (rule serializePacket_serialized[OF l])
  have 2: "deserializePacket (serialized p) p0 = Some ?q" by (rule deserialize_serialized[OF h l])
  have 3: "validatePacket ?q" by (rule validate_deserialized[OF h])
  have 4: "receivePacket s (env\<lparr>rxBytes := serialized p\<rparr>) p0 =
               (True, ?q\<lparr>rssi := rxRssi env, snr := rxSnr env, valid := True\<rparr>,
                (updateSignalQuality s (rxRssi env) (rxSnr env))\<lparr>lastReceiveTime := now env\<rparr>)"
    using receivePacket_serialized[OF h l, of "env\<lparr>rxBytes := serialized p\<rparr>" s p0] by simp
  show ?thesis
    apply (rule exI[of _ "serialized p"])
    apply (rule exI[of _ ?q])
    using 1 2 3 4 by simp
qed

lemma roundTripPacket_fields:
  "length (header roundTripPacket) = 12" "payload roundTripPacket = [1, 2, 3]"
  "ptype roundTripPacket = PacketType_TELEMETRY" "sequenceNumber roundTripPacket = 0x1234"
  by (simp_all add: roundTripPacket_def testPacket_fields)

theorem serialize_deserialize_roundtrip_witness:
  "serializePacket roundTripPacket = Some (serialized roundTripPacket)
   \<and> map_option payload (deserializePacket (serialized roundTripPacket) blankPacket) = Some [1, 2, 3]
   \<and> map_option sequenceNumber (deserializePacket (serialized roundTripPacket) blankPacket) = Some 0x1234
   \<and> map_option validatePacket (deserializePacket (serialized roundTripPacket) blankPacket) = Some True"
  using serialize_deserialize_roundtrip[of roundTripPacket blankPacket "LoRaManager_new 0" "quietEnv 0"]
  by (auto simp add: roundTripPacket_fields sizeof_LoRaPacketHeader_def MAX_PACKET_SIZE_def
      serialized_def)

text \<open>
  The claim as stated has the \<^verbatim>\<open>valid\<close> flag true after \<^verbatim>\<open>deserializePacket\<close>. For the
  example packet (telemetry, sequence number 0x1234, payload 1 2 3) the flag is false.
\<close>

theorem deserialize_leaves_valid_false:
  "serializePacket roundTripPacket = Some (serialized roundTripPacket)
   \<and> map_option valid (deserializePacket (serialized roundTripPacket) blankPacket) = Some False"
  by (simp add: serializePacket_serialized roundTripPacket_fields deserialize_serialized)

subsection \<open>Type codes and the NACK handler\<close>

lemma findWaiting_Some:
  "findWaiting seq q = Some i \<Longrightarrow>
     i < length q \<and> nackTarget seq (q ! i) \<and> (\<forall>j<i. \<not> nackTarget seq (q ! j))"
proof (induction q arbitrary: i)
  case Nil then show ?case by simp
next
  case (Cons a q)
  show ?case
  proof (cases "sequenceNumber (packet a) = seq \<and> waitingForAck a")
    case True
    then show ?thesis using Cons.prems by (auto simp: nackTarget_def)
  next
    case False
    then obtain k where k: "findWaiting seq q = Some k" "i = Suc k"
      using Cons.prems by auto
    from Cons.IH[OF k(1)] False k(2) show ?thesis
      by (auto simp: nackTarget_def less_Suc_eq_0_disj)
  qed
qed

lemma findWaiting_None:
  "findWaiting seq q = None \<longleftrightarrow> (\<forall>x\<in>set q. \<not> nackTarget seq x)"
  by (induction q) (auto simp: nackTarget_def)

lemma findWaitingLevel_cases:
  "findWaitingLevel qs seq priorityLevels =
     (case findWaiting seq (qs EMERGENCY) of Some i \<Rightarrow> Some (EMERGENCY, i) | None \<Rightarrow>
      case findWaiting seq (qs GPS) of Some i \<Rightarrow> Some (GPS, i) | None \<Rightarrow>
      case findWaiting seq (qs TELEMETRY) of Some i \<Rightarrow> Some (TELEMETRY, i) | None \<Rightarrow>
      case findWaiting seq (qs CAMERA) of Some i \<Rightarrow> Some (CAMERA, i) | None \<Rightarrow>
      case findWaiting seq (qs STATUS) of Some i \<Rightarrow> Some (STATUS, i) | None \<Rightarrow> None)"
  by (simp add: priorityLevels_def split: option.splits)

lemma findWaitingLevel_Some:
  assumes "findWaitingLevel qs seq priorityLevels = Some (prio, i)"
  shows "findWaiting seq (qs prio) = Some i
       \<and> (\<forall>p'. priorityIndex p' < priorityIndex prio \<longrightarrow> findWaiting seq (qs p') = None)"
  using assms unfolding findWaitingLevel_cases higher_priorities
  by (cases prio) (auto split: option.splits)

lemma findWaitingLevel_None:
  "findWaitingLevel qs seq priorityLevels = None \<longleftrightarrow> (\<forall>p. findWaiting seq (qs p) = None)"
  unfolding findWaitingLevel_cases all_priorities
  by (auto split: option.splits)

text \<open>
  Claim C10, as the code has it. The enumerators TELEMETRY and GPS, CAMERA_THUMB and GPS_DATA,
  ACK and COMMAND_ACK, NACK and STATUS, PING and DEBUG are the same bytes. A frame that
  \<^verbatim>\<open>receivePacket\<close> accepts and whose type byte is 0x07 is handed to \<^verbatim>\<open>handleNack\<close>,
  whatever the sender meant by it. With fewer than three payload bytes \<^verbatim>\<open>handleNack\<close>
  changes nothing. Otherwise, with \<open>seq\<close> the big-endian value of the first two payload
  bytes: if no queued entry has sequence number \<open>seq\<close> and waits for an ACK, nothing
  changes; else the first such entry (levels from the highest priority down, each level
  from its head) gets \<^verbatim>\<open>waitingForAck\<close> cleared and nothing else changes, in particular
  not a later entry with the same sequence number.
\<close>

theorem status_frame_taken_as_nack:
  fixes p :: Packet
  defines "seq \<equiv> push_bit 8 (ucast (payload p ! 0)) OR ucast (payload p ! 1) :: 16 word"
  assumes rx: "receivePacket s env (rxLocal env) = (True, p, s1)"
    and ty: "ptype p = 0x07"
  shows "PacketType_TELEMETRY = PacketType_GPS \<and> PacketType_CAMERA_THUMB = PacketType_GPS_DATA
       \<and> PacketType_ACK = PacketType_COMMAND_ACK \<and> PacketType_NACK = PacketType_STATUS
       \<and> PacketType_PING = PacketType_DEBUG
       \<and> processIncomingPacket s env = handleNack s1 p
       \<and> (length (payload p) < 3 \<longrightarrow> handleNack s1 p = s1)
       \<and> (3 \<le> length (payload p) \<longrightarrow>
            (findWaitingLevel (priorityQueues s1) seq priorityLevels = None \<longrightarrow>
               (\<forall>lvl. \<forall>x\<in>set (priorityQueues s1 lvl). \<not> nackTarget seq x)
               \<and> handleNack s1 p = s1)
          \<and> (\<forall>prio i. findWaitingLevel (priorityQueues s1) seq priorityLevels = Some (prio, i) \<longrightarrow>
               i < length (priorityQueues s1 prio)
               \<and> nackTarget seq (priorityQueues s1 prio ! i)
               \<and> (\<forall>j<i. \<not> nackTarget seq (priorityQueues s1 prio ! j))
               \<and> (\<forall>lvl. priorityIndex lvl < priorityIndex prio \<longrightarrow>
                     (\<forall>x\<in>set (priorityQueues s1 lvl). \<not> nackTarget seq x))
               \<and> handleNack s1 p =
                   s1\<lparr>priorityQueues := (priorityQueues s1)
                        (prio := list_update (priorityQueues s1 prio) i
                                   ((priorityQueues s1 prio ! i)\<lparr>waitingForAck := False\<rparr>))\<rparr>))"
proof -
  have codes: "PacketType_TELEMETRY = PacketType_GPS \<and> PacketType_CAMERA_THUMB = PacketType_GPS_DATA
       \<and> PacketType_ACK = PacketType_COMMAND_ACK \<and> PacketType_NACK = PacketType_STATUS
       \<and> PacketType_PING = PacketType_DEBUG"
    by (simp add: PacketType_TELEMETRY_def PacketType_GPS_def PacketType_CAMERA_THUMB_def
        PacketType_GPS_DATA_def PacketType_ACK_def PacketType_COMMAND_ACK_def PacketType_NACK_def
        PacketType_STATUS_def PacketType_PING_def PacketType_DEBUG_def)
  have inc: "processIncomingPacket s env = handleNack s1 p"
    using rx ty by (simp add: processIncomingPacket_def PacketType_ACK_def PacketType_NACK_def)
  have short: "length (payload p) < 3 \<longrightarrow> handleNack s1 p = s1"
    by (simp add: handleNack_def)
  have none: "findWaitingLevel (priorityQueues s1) seq priorityLevels = None \<longrightarrow>
               (\<forall>lvl. \<forall>x\<in>set (priorityQueues s1 lvl). \<not> nackTarget seq x)
               \<and> handleNack s1 p = s1" if "3 \<le> length (payload p)"
  proof
    assume f: "findWaitingLevel (priorityQueues s1) seq priorityLevels = None"
    have a: "handleNack s1 p = s1" using that f by (simp add: handleNack_def Let_def seq_def)
    have b: "\<forall>lvl. \<forall>x\<in>set (priorityQueues s1 lvl). \<not> nackTarget seq x"
      using f by (simp add: findWaitingLevel_None findWaiting_None)
    from a b show "(\<forall>lvl. \<forall>x\<in>set (priorityQueues s1 lvl). \<not> nackTarget seq x)
               \<and> handleNack s1 p = s1" by blast
  qed
  have some: "i < length (priorityQueues s1 prio)
               \<and> nackTarget seq (priorityQueues s1 prio ! i)
               \<and> (\<forall>j<i. \<not> nackTarget seq (priorityQueues s1 prio ! j))
               \<and> (\<forall>lvl. priorityIndex lvl < priorityIndex prio \<longrightarrow>
                     (\<forall>x\<in>set (priorityQueues s1 lvl). \<not> nackTarget seq x))
               \<and> handleNack s1 p =
                   s1\<lparr>priorityQueues := (priorityQueues s1)
                        (prio := list_update (priorityQueues s1 prio) i
                                   ((priorityQueues s1 prio ! i)\<lparr>waitingForAck := False\<rparr>))\<rparr>"
    if len: "3 \<le> length (payload p)"
      and f: "findWaitingLevel (priorityQueues s1) seq priorityLevels = Some (prio, i)" for prio i
  proof -
    note l = findWaitingLevel_Some[OF f]
    note w = findWaiting_Some[OF l[THEN conjunct1]]
    have hi: "\<forall>lvl. priorityIndex lvl < priorityIndex prio \<longrightarrow>
                     (\<forall>x\<in>set (priorityQueues s1 lvl). \<not> nackTarget seq x)"
      using l[THEN conjunct2] by (simp add: findWaiting_None)
    have h: "handleNack s1 p =
                   s1\<lparr>priorityQueues := (priorityQueues s1)
                        (prio := list_update (priorityQueues s1 prio) i
                                   ((priorityQueues s1 prio ! i)\<lparr>waitingForAck := False\<rparr>))\<rparr>"
      using len f by (simp add: handleNack_def Let_def seq_def)
    show ?thesis using w hi h by blast
  qed
  show ?thesis using codes inc short none some by blast
qed

lemma statusFrame_fields:
  "length (header statusFrame) = 12" "payload statusFrame = [0, 0, 1]"
  "ptype statusFrame = 0x07" "sequenceNumber statusFrame = 0"
  by (simp_all add: statusFrame_def testPacket_fields PacketType_STATUS_def)

lemma statusEnv_received:
  "receivePacket twoInFlight statusEnv (rxLocal statusEnv) =
     (True,
      blankPacket\<lparr>header := take 8 (header statusFrame) @ drop 8 (header blankPacket),
              ptype := ptype statusFrame,
              sequenceNumber := sequenceNumber statusFrame,
              payload := payload statusFrame,
              crc16 := calculatePacketCRC statusFrame,
              rssi := rxRssi statusEnv, snr := rxSnr statusEnv, valid := True\<rparr>,
      (updateSignalQuality twoInFlight (rxRssi statusEnv) (rxSnr statusEnv))
        \<lparr>lastReceiveTime := now statusEnv\<rparr>)"
  using receivePacket_serialized[of statusFrame statusEnv twoInFlight "rxLocal statusEnv"]
  by (simp add: statusFrame_fields statusEnv_def)

lemma statusEnv_queues:
  "priorityQueues (processIncomingPacket twoInFlight statusEnv) =
     (\<lambda>p. [])(CAMERA := [\<lparr> packet = testPacket PacketType_CAMERA_THUMB [1, 2, 3],
        priority = CAMERA, enqueueTime = 100, transmitAttempts = 1,
        lastTransmitTime = 200, waitingForAck = True \<rparr>],
      EMERGENCY := [\<lparr> packet = testPacket PacketType_EMERGENCY [0xEE],
        priority = EMERGENCY, enqueueTime = 300, transmitAttempts = 1,
        lastTransmitTime = 400, waitingForAck = False \<rparr>])"
  by (simp add: processIncomingPacket_def statusEnv_received statusFrame_fields
      PacketType_ACK_def PacketType_NACK_def handleNack_def updateSignalQuality_def
      twoInFlight_fields findWaitingLevel_cases testPacket_fields)

text \<open>
  The claim as stated has the flag cleared on any queued packet with the matching sequence
  number. In the example both waiting entries have sequence number 0; a STATUS frame with
  payload 0 0 1 is received; afterwards the camera entry still waits for its ACK.
\<close>

theorem status_frame_clears_first_match_only:
  "ptype statusFrame = 0x07
   \<and> take 2 (payload statusFrame) = [0, 0]
   \<and> sequenceNumber (packet (priorityQueues twoInFlight CAMERA ! 0)) = 0
   \<and> waitingForAck (priorityQueues twoInFlight CAMERA ! 0)
   \<and> fst (receivePacket twoInFlight statusEnv (rxLocal statusEnv))
   \<and> waitingForAck (priorityQueues (processIncomingPacket twoInFlight statusEnv) CAMERA ! 0)"
  by (simp add: statusFrame_fields twoInFlight_fields testPacket_fields statusEnv_received
      statusEnv_queues)

theorem status_frame_taken_as_nack_witness:
  "processIncomingPacket twoInFlight statusEnv
     = handleNack ((updateSignalQuality twoInFlight (rxRssi statusEnv) (rxSnr statusEnv))
                     \<lparr>lastReceiveTime := now statusEnv\<rparr>)
         (blankPacket\<lparr>header := take 8 (header statusFrame) @ drop 8 (header blankPacket),
              ptype := ptype statusFrame,
              sequenceNumber := sequenceNumber statusFrame,
              payload := payload statusFrame,
              crc16 := calculatePacketCRC statusFrame,
              rssi := rxRssi statusEnv, snr := rxSnr statusEnv, valid := True\<rparr>)
   \<and> \<not> waitingForAck (priorityQueues (processIncomingPacket twoInFlight statusEnv) EMERGENCY ! 0)"
proof -
  have ty: "ptype (blankPacket\<lparr>header := take 8 (header statusFrame) @ drop 8 (header blankPacket),
              ptype := ptype statusFrame,
              sequenceNumber := sequenceNumber statusFrame,
              payload := payload statusFrame,
              crc16 := calculatePacketCRC statusFrame,
              rssi := rxRssi statusEnv, snr := rxSnr statusEnv, valid := True\<rparr>) = 0x07"
    by (simp add: statusFrame_fields)
  note t = status_frame_taken_as_nack[OF statusEnv_received ty]
  have a: "processIncomingPacket twoInFlight statusEnv
     = handleNack ((updateSignalQuality twoInFlight (rxRssi statusEnv) (rxSnr statusEnv))
                     \<lparr>lastReceiveTime := now statusEnv\<rparr>)
         (blankPacket\<lparr>header := take 8 (header statusFrame) @ drop 8 (header blankPacket),
              ptype := ptype statusFrame,
              sequenceNumber := sequenceNumber statusFrame,
              payload := payload statusFrame,
              crc16 := calculatePacketCRC statusFrame,
              rssi := rxRssi statusEnv, snr := rxSnr statusEnv, valid := True\<rparr>)"
    using t by blast
  have b: "\<not> waitingForAck (priorityQueues (processIncomingPacket twoInFlight statusEnv) EMERGENCY ! 0)"
    by (simp add: statusEnv_queues)
  from a b show ?thesis by blast
qed

subsection \<open>Retry bound in runs without an ACK\<close>

text \<open>Any run of ticks in which every transmission succeeds and no ACK frame is accepted.\<close>

lemma sameButFlags_refl: "sameButFlags q q"
  by (simp add: sameButFlags_def)

lemma sameButFlags_clear:
  "sameButFlags (list_update q i ((q ! i)\<lparr>waitingForAck := False\<rparr>)) q"
proof (cases "i < length q")
  case True
  have "map (\<lambda>x. x\<lparr>waitingForAck := False\<rparr>) (list_update q i ((q ! i)\<lparr>waitingForAck := False\<rparr>))
        = list_update (map (\<lambda>x. x\<lparr>waitingForAck := False\<rparr>) q) i
            ((map (\<lambda>x. x\<lparr>waitingForAck := False\<rparr>) q) ! i)"
    using True by (simp add: map_update)
  then show ?thesis by (simp add: sameButFlags_def)
next
  case False
  then show ?thesis by (simp add: sameButFlags_def list_update_beyond)
qed

lemma handleNack_effect:
  "loraWritten (handleNack s p) = loraWritten s"
  "transmitErrorCount (handleNack s p) = transmitErrorCount s"
  "sameButFlags (priorityQueues (handleNack s p) lvl) (priorityQueues s lvl)"
  by (auto simp: handleNack_def Let_def sameButFlags_refl sameButFlags_clear split: option.splits)





lemma processQueueTicks_take_Suc:
  "m < length envs \<Longrightarrow>
   processQueueTicks s (take (Suc m) envs)
     = snd (processQueue (processQueueTicks s (take m envs)) (envs ! m))"
proof (induction envs arbitrary: s m)
  case Nil then show ?case by simp
next
  case (Cons a envs)
  then show ?case by (cases m) auto
qed











subsection \<open>First in, first out within a level\<close>

lemma asEnqueued_flags:
  "asEnqueued (x\<lparr>waitingForAck := b\<rparr>) = asEnqueued x"
  "asEnqueued (x\<lparr>transmitAttempts := a\<rparr>) = asEnqueued x"
  "asEnqueued (x\<lparr>lastTransmitTime := t\<rparr>) = asEnqueued x"
  by (simp_all add: asEnqueued_def)

lemma asEnqueued_set_head:
  "q \<noteq> [] \<Longrightarrow> asEnqueued y = asEnqueued (q ! 0) \<Longrightarrow>
   map asEnqueued (list_update q 0 y) = map asEnqueued q"
  by (cases q) simp_all

lemma asEnqueued_sameButFlags:
  assumes "sameButFlags q' q" shows "map asEnqueued q' = map asEnqueued q"
proof -
  have "map asEnqueued r = map asEnqueued (map (\<lambda>x. x\<lparr>waitingForAck := False\<rparr>) r)" for r
    by (simp add: asEnqueued_def)
  then show ?thesis using assms by (metis sameButFlags_def)
qed

lemma fifo_remove_head:
  "suffix (map asEnqueued (priorityQueues (removePacketFromQueue s prio 0) lvl))
          (map asEnqueued (priorityQueues s lvl))"
proof (cases "priorityQueues s prio")
  case Nil
  then show ?thesis by (simp add: removePacketFromQueue_def)
next
  case (Cons a q)
  then show ?thesis by (auto simp add: removePacketFromQueue_def suffix_def)
qed

lemma woh_findWaiting:
  assumes "waitingOnlyAtHead q" and "findWaiting seq q = Some i"
  shows "i = 0"
proof (rule ccontr)
  assume "i \<noteq> 0"
  from findWaiting_Some[OF assms(2)] have i: "i < length q" "waitingForAck (q ! i)"
    by (simp_all add: nackTarget_def)
  then have "q ! i \<in> set (tl q)"
    using \<open>i \<noteq> 0\<close> by (cases q; cases i) auto
  then show False using assms(1) i(2) by (simp add: waitingOnlyAtHead_def)
qed

lemma fifo_handleAck:
  assumes "singleFlightPerLevel s"
  shows "suffix (map asEnqueued (priorityQueues (handleAck s ack) lvl))
                (map asEnqueued (priorityQueues s lvl))"
proof (cases "length (payload ack) < 4")
  case True then show ?thesis by (simp add: handleAck_def)
next
  case False
  let ?seq = "push_bit 8 (ucast (payload ack ! 0)) OR ucast (payload ack ! 1) :: 16 word"
  show ?thesis
  proof (cases "findWaitingLevel (priorityQueues s) ?seq priorityLevels")
    case None then show ?thesis using False by (simp add: handleAck_def)
  next
    case (Some ptr)
    obtain prio i where ptr: "ptr = (prio, i)" by (cases ptr)
    have "findWaiting ?seq (priorityQueues s prio) = Some i"
      using findWaitingLevel_Some[of "priorityQueues s" ?seq prio i] Some ptr by simp
    then have "i = 0"
      using woh_findWaiting[of "priorityQueues s prio" ?seq i] assms
      by (simp add: singleFlightPerLevel_def)
    then show ?thesis using False Some ptr fifo_remove_head[of s prio lvl]
      by (simp add: handleAck_def adapt_queues)
  qed
qed

lemma fifo_handleNack:
  "map asEnqueued (priorityQueues (handleNack s nack) lvl) = map asEnqueued (priorityQueues s lvl)"
  using handleNack_effect(3)[of s nack lvl] by (rule asEnqueued_sameButFlags)

lemma fifo_incoming:
  assumes "singleFlightPerLevel s"
  shows "suffix (map asEnqueued (priorityQueues (processIncomingPacket s env) lvl))
                (map asEnqueued (priorityQueues s lvl))"
proof -
  obtain ok p s1 where r: "receivePacket s env (rxLocal env) = (ok, p, s1)"
    by (metis prod_cases3)
  have q: "priorityQueues s1 = priorityQueues s"
    using receivePacket_queues[of s env "rxLocal env"] r by simp
  then have s1: "singleFlightPerLevel s1" using assms by (simp add: singleFlightPerLevel_def)
  show ?thesis using r q fifo_handleAck[OF s1, of p lvl] fifo_handleNack[of s1 p lvl]
    by (cases ok) (simp_all add: processIncomingPacket_def)
qed

lemma fifo_processQueue:
  assumes a: "singleFlightPerLevel s"
  shows "suffix (map asEnqueued (priorityQueues (snd (processQueue s env)) p))
                (map asEnqueued (priorityQueues s p))"
proof -
  define s1 where "s1 = processIncomingPacket s env"
  have s1: "suffix (map asEnqueued (priorityQueues s1 p)) (map asEnqueued (priorityQueues s p))"
    unfolding s1_def by (rule fifo_incoming[OF a])
  have goal: "suffix (map asEnqueued (priorityQueues (snd (processQueue s env)) p))
                (map asEnqueued (priorityQueues s1 p))"
  proof (cases "getNextPacket s1")
    case None
    then show ?thesis by (simp add: processQueue_def s1_def)
  next
    case (Some ptr)
    obtain lvl idx where ptr: "ptr = (lvl, idx)" by (cases ptr)
    have idx: "idx = 0" and ne: "priorityQueues s1 lvl \<noteq> []"
      using Some ptr by (simp_all add: getNextPacket_cases split: if_splits)
    define e where "e = priorityQueues s1 lvl ! 0"
    show ?thesis
    proof (cases "waitingForAck e \<and> \<not> now env - lastTransmitTime e > ACK_TIMEOUT_MS")
      case True
      then have "snd (processQueue s env) = s1"
        using Some ptr idx by (simp add: processQueue_def s1_def[symmetric] e_def[symmetric])
      then show ?thesis by simp
    next
      case False
      define e2 where "e2 = (if waitingForAck e then e\<lparr>waitingForAck := False\<rparr> else e)"
      define s2 where "s2 = (if waitingForAck e
          then s1\<lparr>ackTimeoutCount := ackTimeoutCount s1 + 1,
                  priorityQueues := (priorityQueues s1)
                    (lvl := list_update (priorityQueues s1 lvl) 0 (e\<lparr>waitingForAck := False\<rparr>))\<rparr>
          else s1)"
      have e2: "asEnqueued e2 = asEnqueued e" by (simp add: e2_def asEnqueued_flags)
      have s2: "map asEnqueued (priorityQueues s2 p) = map asEnqueued (priorityQueues s1 p)"
        using asEnqueued_set_head[OF ne, of "e\<lparr>waitingForAck := False\<rparr>"]
        by (simp add: s2_def e_def asEnqueued_flags)
      have ne2: "priorityQueues s2 lvl \<noteq> []" using ne by (simp add: s2_def)
      have h2: "asEnqueued (priorityQueues s2 lvl ! 0) = asEnqueued e"
        using ne by (cases "priorityQueues s1 lvl") (simp_all add: s2_def e_def asEnqueued_flags)
      show ?thesis
      proof (cases "unat (transmitAttempts e) \<ge> MAX_RETRIES")
        case True
        have "snd (processQueue s env) =
            (removePacketFromQueue s2 (priority e2) 0)
              \<lparr>transmitErrorCount := transmitErrorCount (removePacketFromQueue s2 (priority e2) 0) + 1\<rparr>"
          using Some ptr idx False True
          by (auto simp add: processQueue_def s1_def[symmetric] e_def[symmetric] e2_def s2_def Let_def
                split: if_splits)
        then show ?thesis using fifo_remove_head[of s2 "priority e2" p] s2 by simp
      next
        case notmax: False
        obtain ok s3 where tx: "transmitPacket s2 env (packet e2) = (ok, s3)"
          by (cases "transmitPacket s2 env (packet e2)")
        have q3: "priorityQueues s3 = priorityQueues s2"
          using transmitPacket_queues[of s2 env "packet e2"] tx by simp
        show ?thesis
        proof (cases ok)
          case True
          have "snd (processQueue s env) =
              s3\<lparr>transmitStartTime := now env, transmitting := True,
                 priorityQueues := (priorityQueues s3)
                   (lvl := list_update (priorityQueues s3 lvl) 0
                      (e2\<lparr>transmitAttempts := transmitAttempts e2 + 1,
                          lastTransmitTime := now env, waitingForAck := True\<rparr>))\<rparr>"
            using Some ptr idx False notmax tx True
            by (auto simp add: processQueue_def s1_def[symmetric] e_def[symmetric] e2_def s2_def Let_def
                split: if_splits)
          moreover have y: "asEnqueued (e2\<lparr>transmitAttempts := transmitAttempts e2 + 1,
                          lastTransmitTime := now env, waitingForAck := True\<rparr>)
                = asEnqueued (priorityQueues s2 lvl ! 0)"
            using h2 e2 by (simp add: asEnqueued_flags)
          moreover note asEnqueued_set_head[OF ne2 y]
          ultimately have "map asEnqueued (priorityQueues (snd (processQueue s env)) p)
              = map asEnqueued (priorityQueues s2 p)"
            using q3 by (cases "p = lvl") simp_all
          then show ?thesis using s2 by simp
        next
          case nok: False
          have "snd (processQueue s env) = s3\<lparr>transmitErrorCount := transmitErrorCount s3 + 1\<rparr>"
            using Some ptr idx False notmax tx nok
            by (auto simp add: processQueue_def s1_def[symmetric] e_def[symmetric] e2_def s2_def Let_def
                split: if_splits)
          then show ?thesis using q3 s2 by simp
        qed
      qed
    qed
  qed
  from goal s1 show ?thesis by (rule suffix_order.trans)
qed

lemma fifo_sendPacket:
  assumes "length (priorityQueues s prio) \<le> MAX_QUEUE_SIZE"
    and "suffix (map asEnqueued (priorityQueues s lvl)) h"
  shows "suffix (map asEnqueued (priorityQueues (snd (sendPacket s t p prio)) lvl))
                (h @ sentBy lvl (SendPacket t p prio))"
proof (cases "prio = lvl")
  case False
  then show ?thesis using assms(2) by (simp add: sendPacket_queues)
next
  case True
  let ?q = "priorityQueues s lvl"
  let ?e = "\<lparr> packet = p, priority = prio, enqueueTime = t, transmitAttempts = 0,
              lastTransmitTime = 0, waitingForAck = False \<rparr>"
  have e: "asEnqueued ?e = ?e" by (simp add: asEnqueued_def)
  show ?thesis
  proof (cases "length ?q < 10")
    case True
    then show ?thesis using assms(2) \<open>prio = lvl\<close> e by (simp add: sendPacket_queues)
  next
    case False
    then have len: "length ?q = 10" using assms(1) True by (simp add: MAX_QUEUE_SIZE_def)
    then have t: "take 9 (tl ?q) = tl ?q" by simp
    have "suffix (map asEnqueued (tl ?q)) (map asEnqueued ?q)"
      by (cases ?q) (simp_all add: suffix_def)
    then have "suffix (map asEnqueued (tl ?q)) h"
      using assms(2) by (rule suffix_order.trans)
    then show ?thesis using False \<open>prio = lvl\<close> e t by (simp add: sendPacket_queues)
  qed
qed

lemma length_sendPacket:
  assumes "\<forall>p. length (priorityQueues s p) \<le> MAX_QUEUE_SIZE"
  shows "length (priorityQueues (snd (sendPacket s t pk prio)) p) \<le> MAX_QUEUE_SIZE"
  using assms by (auto simp add: sendPacket_queues MAX_QUEUE_SIZE_def)

lemma suffix_map_length:
  "suffix (map f q') (map f q) \<Longrightarrow> length q \<le> n \<Longrightarrow> length q' \<le> n"
  using suffix_length_le[of "map f q'" "map f q"] by simp

lemma fifo_call:
  assumes sfl: "singleFlightPerLevel s"
    and len: "\<forall>p. length (priorityQueues s p) \<le> MAX_QUEUE_SIZE"
    and suf: "\<forall>p. suffix (map asEnqueued (priorityQueues s p)) (h p)"
  shows "singleFlightPerLevel (call s c)
       \<and> (\<forall>p. length (priorityQueues (call s c) p) \<le> MAX_QUEUE_SIZE)
       \<and> (\<forall>p. suffix (map asEnqueued (priorityQueues (call s c) p)) (h p @ sentBy p c))"
proof (cases c)
  case (SendPacket t pk prio)
  show ?thesis unfolding SendPacket call.simps
    using sfl_sendPacket[OF sfl] length_sendPacket[OF len] fifo_sendPacket len suf by blast
next
  case (ProcessQueue env)
  have f: "\<And>p. suffix (map asEnqueued (priorityQueues (snd (processQueue s env)) p))
                (map asEnqueued (priorityQueues s p))"
    by (rule fifo_processQueue[OF sfl])
  have "\<And>p. suffix (map asEnqueued (priorityQueues (snd (processQueue s env)) p)) (h p)"
    using f suf suffix_order.trans by blast
  moreover have "\<And>p. length (priorityQueues (snd (processQueue s env)) p) \<le> MAX_QUEUE_SIZE"
    using suffix_map_length[OF f] len by blast
  ultimately show ?thesis using sfl_processQueue[OF sfl] by (simp add: ProcessQueue)
next
  case (HandleAck ack)
  have f: "\<And>p. suffix (map asEnqueued (priorityQueues (handleAck s ack) p))
                (map asEnqueued (priorityQueues s p))"
    by (rule fifo_handleAck[OF sfl])
  have "\<And>p. suffix (map asEnqueued (priorityQueues (handleAck s ack) p)) (h p)"
    using f suf suffix_order.trans by blast
  moreover have "\<And>p. length (priorityQueues (handleAck s ack) p) \<le> MAX_QUEUE_SIZE"
    using suffix_map_length[OF f] len by blast
  ultimately show ?thesis using sfl_handleAck[OF sfl] by (simp add: HandleAck)
next
  case (HandleNack nack)
  have f: "\<And>p. map asEnqueued (priorityQueues (handleNack s nack) p)
                = map asEnqueued (priorityQueues s p)"
    by (rule fifo_handleNack)
  have "\<And>p. suffix (map asEnqueued (priorityQueues (handleNack s nack) p)) (h p)"
    using f suf by simp
  moreover have "\<And>p. length (priorityQueues (handleNack s nack) p) \<le> MAX_QUEUE_SIZE"
    using f len by (metis length_map)
  ultimately show ?thesis using sfl_handleNack[OF sfl] by (simp add: HandleNack)
qed

lemma fifo_calls:
  assumes "singleFlightPerLevel s"
    and "\<forall>p. length (priorityQueues s p) \<le> MAX_QUEUE_SIZE"
    and "\<forall>p. suffix (map asEnqueued (priorityQueues s p)) (h p)"
  shows "(\<forall>p. length (priorityQueues (calls s cs) p) \<le> MAX_QUEUE_SIZE)
       \<and> (\<forall>p. suffix (map asEnqueued (priorityQueues (calls s cs) p)) (h p @ sentTo p cs))"
  using assms
proof (induction cs arbitrary: s h)
  case Nil
  then show ?case by (simp add: sentTo_def)
next
  case (Cons c cs)
  note st = fifo_call[OF Cons.prems, of c]
  from Cons.IH[of "call s c" "\<lambda>p. h p @ sentBy p c"] st
  show ?case by (simp add: sentTo_def)
qed

lemma suffix_is_drop: "suffix xs ys \<Longrightarrow> xs = drop (length ys - length xs) ys"
  by (auto simp: suffix_def)

lemma fifo_from_new:
  "length (priorityQueues (calls (LoRaManager_new r) cs) p) \<le> MAX_QUEUE_SIZE"
  "map asEnqueued (priorityQueues (calls (LoRaManager_new r) cs) p)
     = drop (length (sentTo p cs) - length (priorityQueues (calls (LoRaManager_new r) cs) p))
            (sentTo p cs)"
proof -
  have n: "\<forall>p. length (priorityQueues (LoRaManager_new r) p) \<le> MAX_QUEUE_SIZE"
    "\<forall>p. suffix (map asEnqueued (priorityQueues (LoRaManager_new r) p)) []"
    by (simp_all add: new_fields)
  note f = fifo_calls[of "LoRaManager_new r" "\<lambda>p. []" cs, OF sfl_new n]
  show "length (priorityQueues (calls (LoRaManager_new r) cs) p) \<le> MAX_QUEUE_SIZE"
    using f by blast
  have "suffix (map asEnqueued (priorityQueues (calls (LoRaManager_new r) cs) p)) (sentTo p cs)"
    using f by simp
  from suffix_is_drop[OF this]
  show "map asEnqueued (priorityQueues (calls (LoRaManager_new r) cs) p)
     = drop (length (sentTo p cs) - length (priorityQueues (calls (LoRaManager_new r) cs) p))
            (sentTo p cs)" by simp
qed

text \<open>
  Claim C6. \<^verbatim>\<open>getNextPacket\<close> returns no entry exactly when all five levels are empty.
  Otherwise it returns the pointer to index 0 of a level \<open>p\<close> exactly when \<open>p\<close> is
  non-empty and every level of higher priority is empty. The result depends on the queue
  contents only, so the order in which the entries of different levels were enqueued plays
  no role.

  Index 0 is the oldest entry of its level. After any sequence \<open>cs\<close> of calls of
  \<^verbatim>\<open>sendPacket\<close>, \<^verbatim>\<open>processQueue\<close>, \<^verbatim>\<open>handleAck\<close> and \<^verbatim>\<open>handleNack\<close> on a new
  manager, a level holds at most \<^verbatim>\<open>MAX_QUEUE_SIZE\<close> entries, and these are, in the order
  of sending and apart from the three fields a transmission writes, the last entries that
  \<^verbatim>\<open>sendPacket\<close> filed under that level. So the entry \<^verbatim>\<open>getNextPacket\<close> returns is,
  of the entries still queued in its level, the one that was sent first.
\<close>

theorem getNextPacket_highest_priority_head:
  "(getNextPacket s = None \<longleftrightarrow> (\<forall>p. priorityQueues s p = []))
   \<and> (getNextPacket s = Some (p, i) \<longleftrightarrow>
        i = 0 \<and> priorityQueues s p \<noteq> []
        \<and> (\<forall>p'. priorityIndex p' < priorityIndex p \<longrightarrow> priorityQueues s p' = []))
   \<and> length (priorityQueues (calls (LoRaManager_new r) cs) p) \<le> MAX_QUEUE_SIZE
   \<and> map asEnqueued (priorityQueues (calls (LoRaManager_new r) cs) p)
        = drop (length (sentTo p cs) - length (priorityQueues (calls (LoRaManager_new r) cs) p))
               (sentTo p cs)
   \<and> (getNextPacket (calls (LoRaManager_new r) cs) = Some (p, i) \<longrightarrow>
        asEnqueued (priorityQueues (calls (LoRaManager_new r) cs) p ! i)
          = sentTo p cs ! (length (sentTo p cs)
                             - length (priorityQueues (calls (LoRaManager_new r) cs) p)))"
proof -
  let ?q = "priorityQueues (calls (LoRaManager_new r) cs) p"
  have a: "getNextPacket s = None \<longleftrightarrow> (\<forall>p. priorityQueues s p = [])"
    by (simp add: getNextPacket_cases all_priorities)
  note b = getNextPacket_Some_iff[of s p i]
  note c = fifo_from_new(1)[of r cs p]
  note d = fifo_from_new(2)[of r cs p]
  have e: "getNextPacket (calls (LoRaManager_new r) cs) = Some (p, i) \<longrightarrow>
        asEnqueued (?q ! i) = sentTo p cs ! (length (sentTo p cs) - length ?q)"
  proof
    assume "getNextPacket (calls (LoRaManager_new r) cs) = Some (p, i)"
    then have i: "i = 0" and ne: "?q \<noteq> []"
      by (simp_all add: getNextPacket_Some_iff)
    have "asEnqueued (?q ! 0) = map asEnqueued ?q ! 0" using ne by simp
    also have "\<dots> = drop (length (sentTo p cs) - length ?q) (sentTo p cs) ! 0"
      using d by simp
    also have "\<dots> = sentTo p cs ! (length (sentTo p cs) - length ?q)"
      by (simp add: nth_drop)
    finally show "asEnqueued (?q ! i) = sentTo p cs ! (length (sentTo p cs) - length ?q)"
      using i by simp
  qed
  from a b c d e show ?thesis by blast
qed

lemma fifoCalls_queues:
  "priorityQueues (calls (LoRaManager_new 0) fifoCalls) =
     (\<lambda>p. [])(TELEMETRY :=
       [\<lparr> packet = testPacket PacketType_TELEMETRY [1], priority = TELEMETRY,
           enqueueTime = 100, transmitAttempts = 1, lastTransmitTime = 300,
           waitingForAck = True \<rparr>,
        \<lparr> packet = testPacket PacketType_TELEMETRY [2], priority = TELEMETRY,
           enqueueTime = 200, transmitAttempts = 0, lastTransmitTime = 0,
           waitingForAck = False \<rparr>,
        \<lparr> packet = testPacket PacketType_TELEMETRY [3], priority = TELEMETRY,
           enqueueTime = 400, transmitAttempts = 0, lastTransmitTime = 0,
           waitingForAck = False \<rparr>])"
proof -
  let ?s2 = "snd (sendPacket (snd (sendPacket (LoRaManager_new 0) 100
                (testPacket PacketType_TELEMETRY [1]) TELEMETRY)) 200
                (testPacket PacketType_TELEMETRY [2]) TELEMETRY)"
  have t: "priorityQueues (snd (processQueue ?s2 (quietEnv 300))) =
     (\<lambda>p. [])(TELEMETRY :=
       [\<lparr> packet = testPacket PacketType_TELEMETRY [1], priority = TELEMETRY,
           enqueueTime = 100, transmitAttempts = 1, lastTransmitTime = 300,
           waitingForAck = True \<rparr>,
        \<lparr> packet = testPacket PacketType_TELEMETRY [2], priority = TELEMETRY,
           enqueueTime = 200, transmitAttempts = 0, lastTransmitTime = 0,
           waitingForAck = False \<rparr>])"
    using tick_transmit(2)[of ?s2 TELEMETRY
      "\<lparr> packet = testPacket PacketType_TELEMETRY [1], priority = TELEMETRY,
           enqueueTime = 100, transmitAttempts = 0, lastTransmitTime = 0,
           waitingForAck = False \<rparr>"
      "[\<lparr> packet = testPacket PacketType_TELEMETRY [2], priority = TELEMETRY,
           enqueueTime = 200, transmitAttempts = 0, lastTransmitTime = 0,
           waitingForAck = False \<rparr>]" "quietEnv 300"
      "serialized (testPacket PacketType_TELEMETRY [1])"]
    by (simp add: sendPacket_queues new_fields getNextPacket_cases quietEnv_fields
      serializePacket_testPacket MAX_RETRIES_def)
  show ?thesis
    by (simp add: fifoCalls_def sendPacket_queues t)
qed

lemma fifoCalls_sent:
  "sentTo TELEMETRY fifoCalls =
       [\<lparr> packet = testPacket PacketType_TELEMETRY [1], priority = TELEMETRY,
           enqueueTime = 100, transmitAttempts = 0, lastTransmitTime = 0,
           waitingForAck = False \<rparr>,
        \<lparr> packet = testPacket PacketType_TELEMETRY [2], priority = TELEMETRY,
           enqueueTime = 200, transmitAttempts = 0, lastTransmitTime = 0,
           waitingForAck = False \<rparr>,
        \<lparr> packet = testPacket PacketType_TELEMETRY [3], priority = TELEMETRY,
           enqueueTime = 400, transmitAttempts = 0, lastTransmitTime = 0,
           waitingForAck = False \<rparr>]"
  by (simp add: sentTo_def fifoCalls_def)

theorem getNextPacket_highest_priority_head_witness:
  "getNextPacket fiveBulk = Some (CAMERA, 0)
   \<and> length (priorityQueues scenarioA CAMERA) = 5
   \<and> getNextPacket scenarioA = Some (EMERGENCY, 0)
   \<and> payload (packet (priorityQueues scenarioA EMERGENCY ! 0)) = [0xEE]
   \<and> getNextPacket (calls (LoRaManager_new 0) fifoCalls) = Some (TELEMETRY, 0)
   \<and> length (priorityQueues (calls (LoRaManager_new 0) fifoCalls) TELEMETRY) = 3
   \<and> asEnqueued (priorityQueues (calls (LoRaManager_new 0) fifoCalls) TELEMETRY ! 0)
        = \<lparr> packet = testPacket PacketType_TELEMETRY [1], priority = TELEMETRY,
            enqueueTime = 100, transmitAttempts = 0, lastTransmitTime = 0,
            waitingForAck = False \<rparr>"
proof -
  have a: "getNextPacket fiveBulk = Some (CAMERA, 0)"
    using getNextPacket_highest_priority_head[of fiveBulk CAMERA 0]
    by (simp add: fiveBulk_queues all_priorities higher_priorities)
  have b: "getNextPacket scenarioA = Some (EMERGENCY, 0)"
    using getNextPacket_highest_priority_head[of scenarioA EMERGENCY 0]
    by (simp add: scenarioA_def sendPacket_queues fiveBulk_queues)
  have c: "length (priorityQueues scenarioA CAMERA) = 5"
    by (simp add: scenarioA_def sendPacket_queues fiveBulk_queues)
  have d: "payload (packet (priorityQueues scenarioA EMERGENCY ! 0)) = [0xEE]"
    by (simp add: scenarioA_def sendPacket_queues fiveBulk_queues testPacket_fields)
  note t = getNextPacket_highest_priority_head[of "calls (LoRaManager_new 0) fifoCalls"
      TELEMETRY 0 0 fifoCalls]
  have e: "getNextPacket (calls (LoRaManager_new 0) fifoCalls) = Some (TELEMETRY, 0)"
    using t by (simp add: fifoCalls_queues all_priorities higher_priorities)
  have f: "length (priorityQueues (calls (LoRaManager_new 0) fifoCalls) TELEMETRY) = 3"
    by (simp add: fifoCalls_queues)
  have g: "asEnqueued (priorityQueues (calls (LoRaManager_new 0) fifoCalls) TELEMETRY ! 0)
        = \<lparr> packet = testPacket PacketType_TELEMETRY [1], priority = TELEMETRY,
            enqueueTime = 100, transmitAttempts = 0, lastTransmitTime = 0,
            waitingForAck = False \<rparr>"
    using t e f by (simp add: fifoCalls_sent)
  from a b c d e f g show ?thesis by blast
qed

subsection \<open>Failed transmissions in any tick\<close>

lemma adapt_fields:
  "loraWritten (adaptTransmissionSettings s r n) = loraWritten s"
  "transmitErrorCount (adaptTransmissionSettings s r n) = transmitErrorCount s"
  by (simp_all add: adaptTransmissionSettings_def setSpreadingFactor_def)

lemma handleAck_fields:
  "loraWritten (handleAck s a) = loraWritten s"
  "transmitErrorCount (handleAck s a) = transmitErrorCount s"
  by (simp_all add: handleAck_def Let_def adapt_fields removePacketFromQueue_def
      split: option.splits)

lemma handleAck_empty:
  "priorityQueues s p = [] \<Longrightarrow> priorityQueues (handleAck s a) p = []"
  by (auto simp: handleAck_def Let_def adapt_queues removePacketFromQueue_def
      split: option.splits)

lemma handleNack_empty:
  "priorityQueues s p = [] \<Longrightarrow> priorityQueues (handleNack s a) p = []"
  by (auto simp: handleNack_def Let_def split: option.splits)

lemma findWaiting_idle_head:
  "\<not> waitingForAck e \<Longrightarrow> findWaiting seq (e # rest) = Some i \<Longrightarrow> \<exists>k. i = Suc k"
  by auto

lemma handleAck_idle_head:
  assumes q: "priorityQueues s lvl = e # rest" and w: "\<not> waitingForAck e"
  shows "\<exists>rest'. priorityQueues (handleAck s a) lvl = e # rest'"
proof (cases "length (payload a) < 4")
  case True then show ?thesis using q by (simp add: handleAck_def)
next
  case False
  let ?seq = "push_bit 8 (ucast (payload a ! 0)) OR ucast (payload a ! 1) :: 16 word"
  show ?thesis
  proof (cases "findWaitingLevel (priorityQueues s) ?seq priorityLevels")
    case None then show ?thesis using False q by (simp add: handleAck_def)
  next
    case (Some ptr)
    obtain prio i where ptr: "ptr = (prio, i)" by (cases ptr)
    have f: "findWaiting ?seq (priorityQueues s prio) = Some i"
      using findWaitingLevel_Some[of "priorityQueues s" ?seq prio i] Some ptr by simp
    have eq: "priorityQueues (handleAck s a) = priorityQueues (removePacketFromQueue s prio i)"
      using False Some ptr by (simp add: handleAck_def adapt_queues)
    show ?thesis
    proof (cases "prio = lvl")
      case False
      then show ?thesis using eq q by (simp add: removePacketFromQueue_def Let_def)
    next
      case True
      have "findWaiting ?seq (e # rest) = Some i" using f q True by simp
      from findWaiting_idle_head[OF w this] obtain k where k: "i = Suc k" by blast
      have "i < length (priorityQueues s prio)" using findWaiting_Some[OF f] by simp
      then show ?thesis using eq q True k by (auto simp add: removePacketFromQueue_def Let_def)
    qed
  qed
qed

lemma handleNack_idle_head:
  assumes q: "priorityQueues s lvl = e # rest" and w: "\<not> waitingForAck e"
  shows "\<exists>rest'. priorityQueues (handleNack s a) lvl = e # rest'"
proof (cases "length (payload a) < 3")
  case True then show ?thesis using q by (simp add: handleNack_def)
next
  case False
  let ?seq = "push_bit 8 (ucast (payload a ! 0)) OR ucast (payload a ! 1) :: 16 word"
  show ?thesis
  proof (cases "findWaitingLevel (priorityQueues s) ?seq priorityLevels")
    case None then show ?thesis using False q by (simp add: handleNack_def)
  next
    case (Some ptr)
    obtain prio i where ptr: "ptr = (prio, i)" by (cases ptr)
    have f: "findWaiting ?seq (priorityQueues s prio) = Some i"
      using findWaitingLevel_Some[of "priorityQueues s" ?seq prio i] Some ptr by simp
    show ?thesis
    proof (cases "prio = lvl")
      case False
      then show ?thesis using \<open>\<not> length (payload a) < 3\<close> Some ptr q
        by (simp add: handleNack_def Let_def)
    next
      case True
      have "findWaiting ?seq (e # rest) = Some i" using f q True by simp
      from findWaiting_idle_head[OF w this] obtain k where k: "i = Suc k" by blast
      show ?thesis using \<open>\<not> length (payload a) < 3\<close> Some ptr q True k
        by (simp add: handleNack_def Let_def)
    qed
  qed
qed

lemma incoming_idle_head:
  assumes g: "getNextPacket s = Some (lvl, 0)" and q: "priorityQueues s lvl = e # rest"
    and w: "\<not> waitingForAck e"
  shows "getNextPacket (processIncomingPacket s env) = Some (lvl, 0)"
    and "\<exists>rest'. priorityQueues (processIncomingPacket s env) lvl = e # rest'"
    and "loraWritten (processIncomingPacket s env) = loraWritten s"
    and "transmitErrorCount (processIncomingPacket s env) = transmitErrorCount s"
proof -
  obtain ok p s1 where r: "receivePacket s env (rxLocal env) = (ok, p, s1)"
    by (metis prod_cases3)
  have f: "loraWritten s1 = loraWritten s" "transmitErrorCount s1 = transmitErrorCount s"
    "priorityQueues s1 = priorityQueues s"
    using receivePacket_fields[of s env "rxLocal env"] r by simp_all
  have cases: "processIncomingPacket s env = s1 \<or> processIncomingPacket s env = handleAck s1 p
      \<or> processIncomingPacket s env = handleNack s1 p"
    using r by (cases ok) (auto simp: processIncomingPacket_def)
  have q1: "priorityQueues s1 lvl = e # rest" using f q by simp
  show h: "\<exists>rest'. priorityQueues (processIncomingPacket s env) lvl = e # rest'"
    using cases q1 handleAck_idle_head[OF q1 w, of p] handleNack_idle_head[OF q1 w, of p]
    by auto
  have hi: "\<forall>p'. priorityIndex p' < priorityIndex lvl \<longrightarrow> priorityQueues s1 p' = []"
    using g f by (simp add: getNextPacket_Some_iff)
  have "\<forall>p'. priorityIndex p' < priorityIndex lvl \<longrightarrow>
          priorityQueues (processIncomingPacket s env) p' = []"
    using cases hi handleAck_empty[of s1 _ p] handleNack_empty[of s1 _ p] by auto
  then show "getNextPacket (processIncomingPacket s env) = Some (lvl, 0)"
    using h by (auto simp add: getNextPacket_Some_iff)
  show "loraWritten (processIncomingPacket s env) = loraWritten s"
    using cases f handleAck_fields(1) handleNack_effect(1) by auto
  show "transmitErrorCount (processIncomingPacket s env) = transmitErrorCount s"
    using cases f handleAck_fields(2) handleNack_effect(2) by auto
qed

lemma ticks_failing_any:
  assumes "getNextPacket s = Some (lvl, 0)" and "priorityQueues s lvl = e # rest"
    and "\<not> waitingForAck e" and "unat (transmitAttempts e) < MAX_RETRIES"
    and "serializePacket (packet e) = Some frame"
    and "\<forall>env\<in>set envs. \<not> txOk env"
  shows "getNextPacket (processQueueTicks s envs) = Some (lvl, 0)
       \<and> (\<exists>rest'. priorityQueues (processQueueTicks s envs) lvl = e # rest')
       \<and> loraWritten (processQueueTicks s envs) = loraWritten s @ replicate (length envs) (frame, False)
       \<and> transmitErrorCount (processQueueTicks s envs) = transmitErrorCount s + of_nat (length envs)"
  using assms
proof (induction envs arbitrary: s rest)
  case Nil then show ?case by simp
next
  case (Cons env envs)
  let ?s1 = "processIncomingPacket s env"
  let ?s' = "snd (processQueue s env)"
  note i = incoming_idle_head[OF Cons.prems(1,2,3), of env]
  obtain rest1 where q1: "priorityQueues ?s1 lvl = e # rest1" using i(2) by blast
  have tx: "\<not> txOk env" using Cons.prems(6) by simp
  have g: "waitingForAck e \<longrightarrow> now env - lastTransmitTime e > ACK_TIMEOUT_MS"
    using Cons.prems(3) by simp
  note t = gtick_fail[OF i(1) q1 tx g Cons.prems(4,5)]
  have e: "e\<lparr>waitingForAck := False\<rparr> = e" using Cons.prems(3) by simp
  have q': "priorityQueues ?s' = priorityQueues ?s1" using t(2) q1 e by auto
  have n': "getNextPacket ?s' = Some (lvl, 0)"
    using getNextPacket_same_emptiness[of ?s' ?s1] q' i(1) by simp
  have ql: "priorityQueues ?s' lvl = e # rest1" using q' q1 by simp
  have r: "\<forall>env\<in>set envs. \<not> txOk env" using Cons.prems(6) by simp
  note IH = Cons.IH[OF n' ql Cons.prems(3,4,5) r]
  show ?case using IH t(3,4) i(3,4) by (simp add: replicate_app_Cons_same)
qed

text \<open>
  Claim C9, as the code has it.

  One tick. After the tick has handled what it received, \<open>e\<close> is the head of the
  highest-priority non-empty level; it is not waiting for an ACK or its ACK timeout has
  expired, it has fewer than \<^verbatim>\<open>MAX_RETRIES\<close> attempts and it fits a frame; the transmit
  primitive reports failure. Then \<^verbatim>\<open>processQueue\<close> returns false, the frame has been
  handed to the transceiver once, \<^verbatim>\<open>transmitErrorCount\<close> is one higher, and \<open>e\<close> is
  still the head with \<^verbatim>\<open>transmitAttempts\<close> and \<^verbatim>\<open>lastTransmitTime\<close> unchanged and
  \<^verbatim>\<open>waitingForAck\<close> false; if it was waiting, \<^verbatim>\<open>ackTimeoutCount\<close> is one higher too.
  No other entry changes.

  Any number of ticks. If \<open>e\<close> is such a head and not waiting, and the transmit
  primitive fails in every tick, whatever the ticks receive, then after the ticks \<open>e\<close>
  is still the head, unchanged; every tick has handed the frame to the transceiver and
  added one to \<^verbatim>\<open>transmitErrorCount\<close>. So failed transmissions do not count towards
  the attempt limit and the entry is never removed. If the ticks receive nothing, all
  queues are as they were.
\<close>

theorem failed_transmit_keeps_attempts:
  "(getNextPacket (processIncomingPacket s env) = Some (lvl, 0)
      \<and> priorityQueues (processIncomingPacket s env) lvl = e # rest
      \<and> \<not> txOk env
      \<and> (waitingForAck e \<longrightarrow> now env - lastTransmitTime e > ACK_TIMEOUT_MS)
      \<and> unat (transmitAttempts e) < MAX_RETRIES
      \<and> serializePacket (packet e) = Some frame
    \<longrightarrow> \<not> fst (processQueue s env)
      \<and> priorityQueues (snd (processQueue s env))
          = (priorityQueues (processIncomingPacket s env))
              (lvl := e\<lparr>waitingForAck := False\<rparr> # rest)
      \<and> loraWritten (snd (processQueue s env))
          = loraWritten (processIncomingPacket s env) @ [(frame, False)]
      \<and> transmitErrorCount (snd (processQueue s env))
          = transmitErrorCount (processIncomingPacket s env) + 1
      \<and> ackTimeoutCount (snd (processQueue s env))
          = (if waitingForAck e then ackTimeoutCount (processIncomingPacket s env) + 1
             else ackTimeoutCount (processIncomingPacket s env)))
   \<and> (getNextPacket s = Some (lvl, 0)
      \<and> priorityQueues s lvl = e # rest
      \<and> \<not> waitingForAck e
      \<and> unat (transmitAttempts e) < MAX_RETRIES
      \<and> serializePacket (packet e) = Some frame
      \<and> (\<forall>env\<in>set envs. \<not> txOk env)
    \<longrightarrow> getNextPacket (processQueueTicks s envs) = Some (lvl, 0)
      \<and> priorityQueues (processQueueTicks s envs) lvl \<noteq> []
      \<and> priorityQueues (processQueueTicks s envs) lvl ! 0 = e
      \<and> loraWritten (processQueueTicks s envs)
          = loraWritten s @ replicate (length envs) (frame, False)
      \<and> transmitErrorCount (processQueueTicks s envs)
          = transmitErrorCount s + of_nat (length envs)
      \<and> ((\<forall>env\<in>set envs. rxBytes env = []) \<longrightarrow>
            priorityQueues (processQueueTicks s envs) = priorityQueues s))"
proof (intro conjI impI)
  assume a: "getNextPacket (processIncomingPacket s env) = Some (lvl, 0)
      \<and> priorityQueues (processIncomingPacket s env) lvl = e # rest
      \<and> \<not> txOk env
      \<and> (waitingForAck e \<longrightarrow> now env - lastTransmitTime e > ACK_TIMEOUT_MS)
      \<and> unat (transmitAttempts e) < MAX_RETRIES
      \<and> serializePacket (packet e) = Some frame"
  then have h: "getNextPacket (processIncomingPacket s env) = Some (lvl, 0)"
    "priorityQueues (processIncomingPacket s env) lvl = e # rest"
    "\<not> txOk env"
    "waitingForAck e \<longrightarrow> now env - lastTransmitTime e > ACK_TIMEOUT_MS"
    "unat (transmitAttempts e) < MAX_RETRIES"
    "serializePacket (packet e) = Some frame"
    by simp_all
  note t = gtick_fail[OF h] gtick_fail_ackTimeout[OF h]
  show "\<not> fst (processQueue s env)" by (rule t(1))
  show "priorityQueues (snd (processQueue s env))
          = (priorityQueues (processIncomingPacket s env))
              (lvl := e\<lparr>waitingForAck := False\<rparr> # rest)" by (rule t(2))
  show "loraWritten (snd (processQueue s env))
          = loraWritten (processIncomingPacket s env) @ [(frame, False)]" by (rule t(3))
  show "transmitErrorCount (snd (processQueue s env))
          = transmitErrorCount (processIncomingPacket s env) + 1" by (rule t(4))
  show "ackTimeoutCount (snd (processQueue s env))
          = (if waitingForAck e then ackTimeoutCount (processIncomingPacket s env) + 1
             else ackTimeoutCount (processIncomingPacket s env))" by (rule t(5))
next
  assume b: "getNextPacket s = Some (lvl, 0)
      \<and> priorityQueues s lvl = e # rest
      \<and> \<not> waitingForAck e
      \<and> unat (transmitAttempts e) < MAX_RETRIES
      \<and> serializePacket (packet e) = Some frame
      \<and> (\<forall>env\<in>set envs. \<not> txOk env)"
  then have h: "getNextPacket s = Some (lvl, 0)" "priorityQueues s lvl = e # rest"
    "\<not> waitingForAck e" "unat (transmitAttempts e) < MAX_RETRIES"
    "serializePacket (packet e) = Some frame" "\<forall>env\<in>set envs. \<not> txOk env"
    by simp_all
  note t = ticks_failing_any[OF h]
  show "getNextPacket (processQueueTicks s envs) = Some (lvl, 0)" using t by simp
  show "priorityQueues (processQueueTicks s envs) lvl \<noteq> []" using t by auto
  show "priorityQueues (processQueueTicks s envs) lvl ! 0 = e" using t by auto
  show "loraWritten (processQueueTicks s envs)
          = loraWritten s @ replicate (length envs) (frame, False)" using t by simp
  show "transmitErrorCount (processQueueTicks s envs)
          = transmitErrorCount s + of_nat (length envs)" using t by simp
  assume c: "\<forall>env\<in>set envs. rxBytes env = []"
  have "\<forall>env\<in>set envs. rxBytes env = [] \<and> \<not> txOk env" using c h(6) by simp
  from ticks_failing[OF h(1-5) this]
  show "priorityQueues (processQueueTicks s envs) = priorityQueues s" by simp
qed

theorem failed_transmit_keeps_attempts_witness:
  "priorityQueues (snd (processQueue bulkInFlight (failingEnv 3000))) CAMERA
     = [\<lparr> packet = testPacket PacketType_CAMERA_THUMB [1, 2, 3],
          priority = CAMERA, enqueueTime = 100, transmitAttempts = 1,
          lastTransmitTime = 200, waitingForAck = False \<rparr>]
   \<and> transmitErrorCount (snd (processQueue bulkInFlight (failingEnv 3000)))
       = transmitErrorCount bulkInFlight + 1
   \<and> ackTimeoutCount (snd (processQueue bulkInFlight (failingEnv 3000)))
       = ackTimeoutCount bulkInFlight + 1
   \<and> priorityQueues (processQueueTicks oneTelemetry
        [failingEnv 1000, statusEnv\<lparr>txOk := False\<rparr>, failingEnv 1001]) TELEMETRY ! 0
       = \<lparr> packet = testPacket PacketType_TELEMETRY [1, 2, 3],
           priority = TELEMETRY, enqueueTime = 100, transmitAttempts = 0,
           lastTransmitTime = 0, waitingForAck = False \<rparr>
   \<and> transmitErrorCount (processQueueTicks oneTelemetry
        [failingEnv 1000, statusEnv\<lparr>txOk := False\<rparr>, failingEnv 1001]) = 3
   \<and> priorityQueues (processQueueTicks oneTelemetry [failingEnv 1000, failingEnv 1001])
       = priorityQueues oneTelemetry"
proof -
  have i: "processIncomingPacket bulkInFlight (failingEnv 3000) = bulkInFlight"
    by (simp add: processIncomingPacket_nothing failingEnv_fields)
  note a = failed_transmit_keeps_attempts[of bulkInFlight "failingEnv 3000" CAMERA
      "\<lparr> packet = testPacket PacketType_CAMERA_THUMB [1, 2, 3],
          priority = CAMERA, enqueueTime = 100, transmitAttempts = 1,
          lastTransmitTime = 200, waitingForAck = True \<rparr>" "[]"
      "serialized (testPacket PacketType_CAMERA_THUMB [1, 2, 3])" "[]", THEN conjunct1]
  have a': "priorityQueues (snd (processQueue bulkInFlight (failingEnv 3000))) CAMERA
     = [\<lparr> packet = testPacket PacketType_CAMERA_THUMB [1, 2, 3],
          priority = CAMERA, enqueueTime = 100, transmitAttempts = 1,
          lastTransmitTime = 200, waitingForAck = False \<rparr>]
   \<and> transmitErrorCount (snd (processQueue bulkInFlight (failingEnv 3000)))
       = transmitErrorCount bulkInFlight + 1
   \<and> ackTimeoutCount (snd (processQueue bulkInFlight (failingEnv 3000)))
       = ackTimeoutCount bulkInFlight + 1"
    using a
    by (simp add: i bulkInFlight_fields getNextPacket_cases failingEnv_fields
        serializePacket_testPacket MAX_RETRIES_def ACK_TIMEOUT_MS_def)
  note b = failed_transmit_keeps_attempts[of oneTelemetry _ TELEMETRY
      "\<lparr> packet = testPacket PacketType_TELEMETRY [1, 2, 3],
         priority = TELEMETRY, enqueueTime = 100, transmitAttempts = 0,
         lastTransmitTime = 0, waitingForAck = False \<rparr>" "[]"
      "serialized (testPacket PacketType_TELEMETRY [1, 2, 3])", THEN conjunct2]
  have b1: "priorityQueues (processQueueTicks oneTelemetry
        [failingEnv 1000, statusEnv\<lparr>txOk := False\<rparr>, failingEnv 1001]) TELEMETRY ! 0
       = \<lparr> packet = testPacket PacketType_TELEMETRY [1, 2, 3],
           priority = TELEMETRY, enqueueTime = 100, transmitAttempts = 0,
           lastTransmitTime = 0, waitingForAck = False \<rparr>
   \<and> transmitErrorCount (processQueueTicks oneTelemetry
        [failingEnv 1000, statusEnv\<lparr>txOk := False\<rparr>, failingEnv 1001]) = 3"
    using b[of "[failingEnv 1000, statusEnv\<lparr>txOk := False\<rparr>, failingEnv 1001]"]
    by (simp add: oneTelemetry_fields serializePacket_testPacket failingEnv_fields
        MAX_RETRIES_def)
  have b2: "priorityQueues (processQueueTicks oneTelemetry [failingEnv 1000, failingEnv 1001])
       = priorityQueues oneTelemetry"
    using b[of "[failingEnv 1000, failingEnv 1001]"]
    by (simp add: oneTelemetry_fields serializePacket_testPacket failingEnv_fields
        MAX_RETRIES_def)
  from a' b1 b2 show ?thesis by blast
qed

text \<open>
  The claim as stated has the entry removed after \<^verbatim>\<open>MAX_RETRIES\<close> failed transmissions.
  After five ticks that each fail to transmit, more than two seconds apart, the telemetry
  packet of the example is still queued with \<^verbatim>\<open>transmitAttempts\<close> = 0.
\<close>

theorem failed_transmits_do_not_remove:
  "length (priorityQueues (processQueueTicks oneTelemetry
      [failingEnv 1000, failingEnv 4000, failingEnv 7000, failingEnv 10000, failingEnv 13000])
      TELEMETRY) = 1
   \<and> transmitAttempts (priorityQueues (processQueueTicks oneTelemetry
      [failingEnv 1000, failingEnv 4000, failingEnv 7000, failingEnv 10000, failingEnv 13000])
      TELEMETRY ! 0) = 0
   \<and> transmitErrorCount (processQueueTicks oneTelemetry
      [failingEnv 1000, failingEnv 4000, failingEnv 7000, failingEnv 10000, failingEnv 13000]) = 5"
  using ticks_failing[of oneTelemetry TELEMETRY
      "\<lparr> packet = testPacket PacketType_TELEMETRY [1, 2, 3],
         priority = TELEMETRY, enqueueTime = 100, transmitAttempts = 0,
         lastTransmitTime = 0, waitingForAck = False \<rparr>" "[]"
      "serialized (testPacket PacketType_TELEMETRY [1, 2, 3])"
      "[failingEnv 1000, failingEnv 4000, failingEnv 7000, failingEnv 10000, failingEnv 13000]"]
  by (simp add: oneTelemetry_fields serializePacket_testPacket failingEnv_fields MAX_RETRIES_def)


subsection \<open>Heartbeat sequence numbers\<close>

lemma assemblePacket_frame:
  "assemblePacket s env ty pl = Some frame \<Longrightarrow>
     frame ! 2 = ty \<and> frame ! 3 = currentSequenceNumber s"
  by (auto simp: assemblePacket_def Let_def uint16ToBytes_def split: if_splits option.splits)

lemma addToBuffer_success:
  assumes "addToBuffer s env dat prio = (True, s')"
  shows "\<exists>i<length (packetQueue s'). pb_data (packetQueue s' ! i) = Some dat"
    and "currentSequenceNumber s' = currentSequenceNumber s"
proof -
  define q where "q = (if length (packetQueue s) \<ge> 16
      then take (findOldestLowPriorityPacket s) (packetQueue s)
           @ drop (Suc (findOldestLowPriorityPacket s)) (packetQueue s)
      else packetQueue s)"
  define k where "k = findInsertPos prio q 0"
  define b where "b = \<lparr> pb_data = Some dat, pb_timestamp = millis env,
                            pb_priority = prio, pb_ready = True \<rparr>"
  have s': "s' = s\<lparr>packetQueue := take k q @ [b] @ drop k q\<rparr>"
    using assms by (auto simp: addToBuffer_def Let_def q_def k_def b_def split: if_splits)
  have "(take k q @ [b] @ drop k q) ! (length (take k q)) = b"
    by (simp add: nth_append)
  moreover have "length (take k q) < length (take k q @ [b] @ drop k q)" by simp
  ultimately show "\<exists>i<length (packetQueue s'). pb_data (packetQueue s' ! i) = Some dat"
    unfolding s' by (intro exI[of _ "length (take k q)"]) (simp add: b_def)
  show "currentSequenceNumber s' = currentSequenceNumber s" by (simp add: s')
qed

lemma createHeartbeatPacket_success:
  assumes "createHeartbeatPacket s env = (True, s')"
  shows "\<exists>frame. assemblePacket (s\<lparr>currentSequenceNumber := currentSequenceNumber s + 1\<rparr>) env
                     PacketType_HEARTBEAT [currentSequenceNumber s + 1] = Some frame
           \<and> (\<exists>i<length (packetQueue s'). pb_data (packetQueue s' ! i) = Some frame)
           \<and> frame ! 2 = PacketType_HEARTBEAT
           \<and> frame ! 3 = currentSequenceNumber s + 1
           \<and> currentSequenceNumber s' = currentSequenceNumber s + 1"
proof -
  let ?s1 = "s\<lparr>currentSequenceNumber := currentSequenceNumber s + 1\<rparr>"
  obtain frame where f: "assemblePacket ?s1 env PacketType_HEARTBEAT [currentSequenceNumber s + 1] = Some frame"
    and a: "addToBuffer ?s1 env frame PacketPriority_PRIORITY_NORMAL = (True, s')"
    using assms
    by (auto simp: createHeartbeatPacket_def PacketHandler_createPacket_def Let_def
        split: if_splits option.splits)
  from assemblePacket_frame[OF f] addToBuffer_success[OF a] f show ?thesis by auto
qed

text \<open>
  Claim C3, as the code has it. \<^verbatim>\<open>currentSequenceNumber\<close> and the sequence field of a
  frame are 8 bits wide. When two calls of \<^verbatim>\<open>createHeartbeatPacket\<close> in a row both
  succeed, each has assembled and queued a heartbeat frame; the first frame carries the
  counter before the calls plus one, and the second frame carries the first frame's number
  plus one modulo 256, so 0 after 255.
\<close>

theorem heartbeat_sequence_wraps_at_256:
  assumes "createHeartbeatPacket s env1 = (True, s1)"
    and "createHeartbeatPacket s1 env2 = (True, s2)"
  shows "\<exists>f1 f2.
           assemblePacket (s\<lparr>currentSequenceNumber := currentSequenceNumber s + 1\<rparr>) env1
              PacketType_HEARTBEAT [currentSequenceNumber s + 1] = Some f1
         \<and> assemblePacket (s1\<lparr>currentSequenceNumber := currentSequenceNumber s1 + 1\<rparr>) env2
              PacketType_HEARTBEAT [currentSequenceNumber s1 + 1] = Some f2
         \<and> (\<exists>i<length (packetQueue s1). pb_data (packetQueue s1 ! i) = Some f1)
         \<and> (\<exists>j<length (packetQueue s2). pb_data (packetQueue s2 ! j) = Some f2)
         \<and> f1 ! 3 = currentSequenceNumber s + 1
         \<and> f2 ! 3 = f1 ! 3 + 1
         \<and> unat (f2 ! 3) = (unat (f1 ! 3) + 1) mod 256"
proof -
  from createHeartbeatPacket_success[OF assms(1)] obtain f1 where
    1: "assemblePacket (s\<lparr>currentSequenceNumber := currentSequenceNumber s + 1\<rparr>) env1
              PacketType_HEARTBEAT [currentSequenceNumber s + 1] = Some f1"
       "\<exists>i<length (packetQueue s1). pb_data (packetQueue s1 ! i) = Some f1"
       "f1 ! 3 = currentSequenceNumber s + 1"
       "currentSequenceNumber s1 = currentSequenceNumber s + 1"
    by blast
  from createHeartbeatPacket_success[OF assms(2)] obtain f2 where
    2: "assemblePacket (s1\<lparr>currentSequenceNumber := currentSequenceNumber s1 + 1\<rparr>) env2
              PacketType_HEARTBEAT [currentSequenceNumber s1 + 1] = Some f2"
       "\<exists>j<length (packetQueue s2). pb_data (packetQueue s2 ! j) = Some f2"
       "f2 ! 3 = currentSequenceNumber s1 + 1"
    by blast
  have e: "f2 ! 3 = f1 ! 3 + 1" using 1(3,4) 2(3) by simp
  have "unat (f2 ! 3) = (unat (f1 ! 3) + 1) mod 256"
    unfolding e by (simp add: unat_word_ariths)
  then show ?thesis using 1 2 e by blast
qed

lemma findInsertPos_normal:
  "\<forall>b\<in>set q. pb_priority b = 1 \<Longrightarrow> findInsertPos 1 q i = i + length q"
  by (induction q arbitrary: i) auto

lemma heartbeatFrame_seq: "heartbeatFrame seq ! 3 = seq"
  by (simp add: heartbeatFrame_def assemblePacket_def handlerEnv_def PacketHandler_new_def
      Let_def MAX_PACKET_SIZE_def sizeof_PacketHeader_def sizeof_PacketFooter_def)

lemma createHeartbeatPacket_handlerEnv:
  assumes "length (packetQueue s) < 16" and "\<forall>b\<in>set (packetQueue s). pb_priority b = 1"
    and "maxPacketSize s = 240"
  shows "createHeartbeatPacket s handlerEnv =
     (True, s\<lparr>currentSequenceNumber := currentSequenceNumber s + 1,
              packetQueue := packetQueue s
                @ [\<lparr> pb_data = Some (heartbeatFrame (currentSequenceNumber s + 1)),
                      pb_timestamp = 1000, pb_priority = 1, pb_ready = True \<rparr>]\<rparr>)"
  using assms
  by (simp add: createHeartbeatPacket_def PacketHandler_createPacket_def addToBuffer_def
      assemblePacket_def heartbeatFrame_def handlerEnv_def PacketHandler_new_def Let_def
      MAX_PAYLOAD_SIZE_def MAX_PACKET_SIZE_def sizeof_PacketHeader_def sizeof_PacketFooter_def
      PacketPriority_PRIORITY_NORMAL_def findInsertPos_normal)

lemma heartbeatAt254_fields:
  "maxPacketSize heartbeatAt254 = 240" "packetQueue heartbeatAt254 = []"
  "currentSequenceNumber heartbeatAt254 = 254"
  by (simp_all add: heartbeatAt254_def setSequenceNumber_def PacketHandler_new_def
      MAX_PACKET_SIZE_def)

lemma first_heartbeat:
  "createHeartbeatPacket heartbeatAt254 handlerEnv =
     (True, heartbeatAt254\<lparr>currentSequenceNumber := 255,
              packetQueue := [\<lparr> pb_data = Some (heartbeatFrame 255),
                      pb_timestamp = 1000, pb_priority = 1, pb_ready = True \<rparr>]\<rparr>)"
  using createHeartbeatPacket_handlerEnv[of heartbeatAt254]
  by (simp add: heartbeatAt254_fields)

lemma byte_256: "(256 :: byte) = 0"
  by simp

lemma second_heartbeat:
  "createHeartbeatPacket (snd (createHeartbeatPacket heartbeatAt254 handlerEnv)) handlerEnv =
     (True, heartbeatAt254\<lparr>currentSequenceNumber := 0,
              packetQueue := [\<lparr> pb_data = Some (heartbeatFrame 255),
                      pb_timestamp = 1000, pb_priority = 1, pb_ready = True \<rparr>,
                    \<lparr> pb_data = Some (heartbeatFrame 0),
                      pb_timestamp = 1000, pb_priority = 1, pb_ready = True \<rparr>]\<rparr>)"
  using createHeartbeatPacket_handlerEnv[of "heartbeatAt254\<lparr>currentSequenceNumber := 255,
              packetQueue := [\<lparr> pb_data = Some (heartbeatFrame 255),
                      pb_timestamp = 1000, pb_priority = 1, pb_ready = True \<rparr>]\<rparr>"]
  by (simp add: first_heartbeat heartbeatAt254_fields byte_256)

text \<open>
  The claim as stated has the numbers increase by one modulo 65536. Two heartbeats created
  from a handler whose counter is 254 carry 255 and then 0, not 256.
\<close>

theorem heartbeat_after_255_is_0:
  "map (\<lambda>b. unat (the (pb_data b) ! 3)) (packetQueue twoHeartbeats) = [255, 0]
   \<and> unat (the (pb_data (packetQueue twoHeartbeats ! 1)) ! 3)
       \<noteq> (unat (the (pb_data (packetQueue twoHeartbeats ! 0)) ! 3) + 1) mod 65536"
  by (simp add: twoHeartbeats_def second_heartbeat heartbeatFrame_seq)

theorem heartbeat_sequence_wraps_at_256_witness:
  "fst (createHeartbeatPacket heartbeatAt254 handlerEnv)
   \<and> fst (createHeartbeatPacket (snd (createHeartbeatPacket heartbeatAt254 handlerEnv)) handlerEnv)
   \<and> (\<exists>f1 f2.
         (\<exists>i<length (packetQueue (snd (createHeartbeatPacket heartbeatAt254 handlerEnv))).
            pb_data (packetQueue (snd (createHeartbeatPacket heartbeatAt254 handlerEnv)) ! i) = Some f1)
       \<and> (\<exists>j<length (packetQueue twoHeartbeats). pb_data (packetQueue twoHeartbeats ! j) = Some f2)
       \<and> f1 ! 3 = 255 \<and> f2 ! 3 = 0)"
proof -
  have a: "createHeartbeatPacket heartbeatAt254 handlerEnv
             = (True, snd (createHeartbeatPacket heartbeatAt254 handlerEnv))"
    by (simp add: first_heartbeat)
  have b: "createHeartbeatPacket (snd (createHeartbeatPacket heartbeatAt254 handlerEnv)) handlerEnv
             = (True, twoHeartbeats)"
    by (simp add: twoHeartbeats_def second_heartbeat)
  from heartbeat_sequence_wraps_at_256[OF a b] obtain f1 f2 where f:
    "\<exists>i<length (packetQueue (snd (createHeartbeatPacket heartbeatAt254 handlerEnv))).
            pb_data (packetQueue (snd (createHeartbeatPacket heartbeatAt254 handlerEnv)) ! i) = Some f1"
    "\<exists>j<length (packetQueue twoHeartbeats). pb_data (packetQueue twoHeartbeats ! j) = Some f2"
    "f1 ! 3 = currentSequenceNumber heartbeatAt254 + 1" "f2 ! 3 = f1 ! 3 + 1"
    by blast
  have v: "f1 ! 3 = 255" "f2 ! 3 = 0" using f(3,4) by (simp_all add: heartbeatAt254_fields)
  have fa: "fst (createHeartbeatPacket heartbeatAt254 handlerEnv)"
    by (subst a) simp
  have fb: "fst (createHeartbeatPacket (snd (createHeartbeatPacket heartbeatAt254 handlerEnv)) handlerEnv)"
    by (subst b) simp
  from fa fb f(1,2) v show ?thesis by blast
qed

subsection \<open>Resynchronisation of the receive framer\<close>

text \<open>
  Claim C5 at a concrete stream. The 14-byte frame of the example (TELEMETRY, payload
  10 20) is accepted by a new handler when it is fed alone: \<^verbatim>\<open>processIncomingData\<close>
  returns true and the received counter goes up (it is incremented twice per frame). Fed
  after one stray 0xAA, the same frame is lost: the second 0xAA does not continue the
  start pattern, \<^verbatim>\<open>receiveIndex\<close> is reset and the byte itself is not taken as a new
  start byte, so the 0x55 that follows is dropped too and nothing is received.
\<close>

theorem stray_start_byte_loses_frame:
  "fst (processIncomingData PacketHandler_new handlerEnv goodFrame)
   \<and> packetsReceived (snd (processIncomingData PacketHandler_new handlerEnv goodFrame)) = 2
   \<and> \<not> fst (processIncomingData PacketHandler_new handlerEnv (0xAA # goodFrame))
   \<and> packetsReceived (snd (processIncomingData PacketHandler_new handlerEnv (0xAA # goodFrame))) = 0"
  by code_simp

end
